theory Spec2Isabelle
  imports Complex_Main "HOL-Library.Word" "HOL-Library.List_Lexorder"
begin

unbundle bit_operations_syntax

section \<open>Python values used by the two scripts\<close>

text \<open>
  A Python \<open>str\<close> is a sequence of Unicode code points; \<open>in\<close>, \<open>strip\<close>,
  \<open>replace\<close> and \<open>sorted\<close> work on code points, and \<open>encode\<close> turns them into
  UTF-8 bytes. Strings are therefore lists of code points (natural numbers), and
  \<open>ascii\<close> writes the ASCII literals of the source.
\<close>

type_synonym str = "nat list"
type_synonym byte = "8 word"

definition ascii :: "string \<Rightarrow> str" where
  "ascii s = map of_char s"

text \<open>The exceptions the scripts can meet.\<close>

datatype pyerr = AttributeError | TypeError | ValueError | KeyError | IndexError
  | UnicodeEncodeError

text \<open>
  A value of a \<open>csv.DictReader\<close> row: a \<open>str\<close>, or \<open>None\<close> where a record of the
  file has fewer fields than the header (the reader's \<open>restval\<close>). A row maps the
  column names of the header to such values.
\<close>

datatype cell = PyNone | Str str

type_synonym row = "str \<rightharpoonup> cell"

text \<open>\<open>row.get(key, default)\<close>\<close>

definition get :: "row \<Rightarrow> str \<Rightarrow> cell \<Rightarrow> cell" where
  "get r k d = (case r k of None \<Rightarrow> d | Some v \<Rightarrow> v)"

subsection \<open>String operations\<close>

text \<open>\<open>str.isspace\<close> of one code point: the characters \<open>strip()\<close> and \<open>split()\<close> remove.\<close>

definition isspace :: "nat \<Rightarrow> bool" where
  "isspace c \<longleftrightarrow>
     (0x09 \<le> c \<and> c \<le> 0x0D) \<or> (0x1C \<le> c \<and> c \<le> 0x20) \<or> c = 0x85 \<or> c = 0xA0 \<or>
     c = 0x1680 \<or> (0x2000 \<le> c \<and> c \<le> 0x200A) \<or> c = 0x2028 \<or> c = 0x2029 \<or>
     c = 0x202F \<or> c = 0x205F \<or> c = 0x3000"

text \<open>\<open>s.strip()\<close>\<close>

definition strip :: "str \<Rightarrow> str" where
  "strip s = rev (dropWhile isspace (rev (dropWhile isspace s)))"

text \<open>\<open>v.strip()\<close> on a cell: \<open>None\<close> has no such method.\<close>

fun cell_strip :: "cell \<Rightarrow> pyerr + str" where
  "cell_strip PyNone = Inl AttributeError"
| "cell_strip (Str s) = Inr (strip s)"

text \<open>\<open>s.startswith(x)\<close> and \<open>x in s\<close> (substring search from the left).\<close>

fun startswith :: "'a list \<Rightarrow> 'a list \<Rightarrow> bool" where
  "startswith s [] = True"
| "startswith [] (x # xs) = False"
| "startswith (c # s) (x # xs) = (c = x \<and> startswith s xs)"

fun str_in :: "'a list \<Rightarrow> 'a list \<Rightarrow> bool" where
  "str_in x [] = (x = [])"
| "str_in x (c # s) = (startswith (c # s) x \<or> str_in x s)"

text \<open>\<open>s.replace(old, new)\<close> for a one-character \<open>old\<close>.\<close>

definition replace :: "nat \<Rightarrow> str \<Rightarrow> str \<Rightarrow> str" where
  "replace old new s = concat (map (\<lambda>c. if c = old then new else [c]) s)"

text \<open>\<open>s.split()\<close>: the maximal runs of characters that are not whitespace.\<close>

fun split_ws :: "str \<Rightarrow> str \<Rightarrow> str list" where
  "split_ws cur [] = (if cur = [] then [] else [cur])"
| "split_ws cur (c # s) =
     (if isspace c then (if cur = [] then split_ws [] s else cur # split_ws [] s)
      else split_ws (cur @ [c]) s)"

definition split :: "str \<Rightarrow> str list" where
  "split s = split_ws [] s"

section \<open>Identifier derivation (create\_stores.py 19-21, populate\_all\_tables.py 28-29)\<close>

subsection \<open>\<open>name.encode()\<close>: UTF-8\<close>

text \<open>
  The strict UTF-8 codec refuses the surrogates \<open>U+D800..U+DFFF\<close>; text decoded from
  a UTF-8 file holds none. Numbers from \<open>0x110000\<close> on are not code points.
\<close>

definition scalar_value :: "nat \<Rightarrow> bool" where
  "scalar_value c \<longleftrightarrow> c < 0x110000 \<and> \<not> (0xD800 \<le> c \<and> c \<le> 0xDFFF)"

definition utf8_char :: "nat \<Rightarrow> byte list" where
  "utf8_char c =
     (if c < 0x80 then [of_nat c]
      else if c < 0x800 then [of_nat (0xC0 + c div 64), of_nat (0x80 + c mod 64)]
      else if c < 0x10000 then
        [of_nat (0xE0 + c div 4096), of_nat (0x80 + c div 64 mod 64), of_nat (0x80 + c mod 64)]
      else
        [of_nat (0xF0 + c div 262144), of_nat (0x80 + c div 4096 mod 64),
         of_nat (0x80 + c div 64 mod 64), of_nat (0x80 + c mod 64)])"

definition encode :: "str \<Rightarrow> pyerr + byte list" where
  "encode s =
     (if list_all scalar_value s then Inr (concat (map utf8_char s))
      else Inl UnicodeEncodeError)"

subsection \<open>\<open>hashlib.md5(data).digest()\<close>: MD5 as RFC 1321 defines it\<close>

text \<open>
  \<open>digest\<close> pads the message to whole blocks of 64 bytes (a byte \<open>0x80\<close>, zeros,
  the length in bits as 8 little-endian bytes), runs 64 steps on every block from the
  running state of four 32-bit words, and returns the final state as 16 bytes.
\<close>

type_synonym u32 = "32 word"

definition rotl32 :: "u32 \<Rightarrow> nat \<Rightarrow> u32" where
  "rotl32 x n = push_bit n x OR drop_bit (32 - n) x"

text \<open>
  The shift amounts and the constants \<open>floor(2^32 * abs(sin(i + 1)))\<close> of the 64
  steps.
\<close>

definition md5_s :: "nat list" where
  "md5_s = [7, 12, 17, 22, 7, 12, 17, 22, 7, 12, 17, 22, 7, 12, 17, 22,
            5, 9, 14, 20, 5, 9, 14, 20, 5, 9, 14, 20, 5, 9, 14, 20,
            4, 11, 16, 23, 4, 11, 16, 23, 4, 11, 16, 23, 4, 11, 16, 23,
            6, 10, 15, 21, 6, 10, 15, 21, 6, 10, 15, 21, 6, 10, 15, 21]"

definition md5_K :: "u32 list" where
  "md5_K =
     [0xd76aa478, 0xe8c7b756, 0x242070db, 0xc1bdceee, 0xf57c0faf, 0x4787c62a,
      0xa8304613, 0xfd469501, 0x698098d8, 0x8b44f7af, 0xffff5bb1, 0x895cd7be,
      0x6b901122, 0xfd987193, 0xa679438e, 0x49b40821, 0xf61e2562, 0xc040b340,
      0x265e5a51, 0xe9b6c7aa, 0xd62f105d, 0x02441453, 0xd8a1e681, 0xe7d3fbc8,
      0x21e1cde6, 0xc33707d6, 0xf4d50d87, 0x455a14ed, 0xa9e3e905, 0xfcefa3f8,
      0x676f02d9, 0x8d2a4c8a, 0xfffa3942, 0x8771f681, 0x6d9d6122, 0xfde5380c,
      0xa4beea44, 0x4bdecfa9, 0xf6bb4b60, 0xbebfbc70, 0x289b7ec6, 0xeaa127fa,
      0xd4ef3085, 0x04881d05, 0xd9d4d039, 0xe6db99e5, 0x1fa27cf8, 0xc4ac5665,
      0xf4292244, 0x432aff97, 0xab9423a7, 0xfc93a039, 0x655b59c3, 0x8f0ccc92,
      0xffeff47d, 0x85845dd1, 0x6fa87e4f, 0xfe2ce6e0, 0xa3014314, 0x4e0811a1,
      0xf7537e82, 0xbd3af235, 0x2ad7d2bb, 0xeb86d391]"

text \<open>A little-endian word from its bytes, and the first \<open>n\<close> bytes of a word.\<close>

definition le_word :: "byte list \<Rightarrow> u32" where
  "le_word bs = foldr (\<lambda>b w. ucast b OR push_bit 8 w) bs 0"

definition le_bytes :: "nat \<Rightarrow> 'a::len word \<Rightarrow> byte list" where
  "le_bytes n w = map (\<lambda>i. ucast (drop_bit (8 * i) w)) [0..<n]"

definition md5_pad :: "byte list \<Rightarrow> byte list" where
  "md5_pad m =
     m @ [0x80] @ replicate ((119 - length m mod 64) mod 64) 0 @
     le_bytes 8 (8 * of_nat (length m) :: 64 word)"

record md5_state = A :: u32  B :: u32  C :: u32  D :: u32

definition md5_round :: "u32 list \<Rightarrow> md5_state \<Rightarrow> nat \<Rightarrow> md5_state" where
  "md5_round M st i =
     (let a = A st; b = B st; c = C st; d = D st;
          (f, g) = (if i < 16 then ((b AND c) OR (NOT b AND d), i)
                    else if i < 32 then ((d AND b) OR (NOT d AND c), (5 * i + 1) mod 16)
                    else if i < 48 then (b XOR c XOR d, (3 * i + 5) mod 16)
                    else (c XOR (b OR NOT d), (7 * i) mod 16));
          f' = f + a + md5_K ! i + M ! g
      in \<lparr>A = d, B = b + rotl32 f' (md5_s ! i), C = b, D = c\<rparr>)"

definition md5_block :: "md5_state \<Rightarrow> byte list \<Rightarrow> md5_state" where
  "md5_block st blk =
     (let M = map (\<lambda>j. le_word (take 4 (drop (4 * j) blk))) [0..<16];
          r = foldl (md5_round M) st [0..<64]
      in \<lparr>A = A st + A r, B = B st + B r, C = C st + C r, D = D st + D r\<rparr>)"

definition md5 :: "byte list \<Rightarrow> byte list" where
  "md5 m =
     (let p = md5_pad m;
          st = foldl md5_block \<lparr>A = 0x67452301, B = 0xefcdab89, C = 0x98badcfe, D = 0x10325476\<rparr>
                 (map (\<lambda>k. take 64 (drop (64 * k) p)) [0..<length p div 64])
      in concat (map (\<lambda>w. le_bytes 4 w) [A st, B st, C st, D st]))"

subsection \<open>The two identifiers\<close>

text \<open>\<open>int.from_bytes(bs, byteorder='big')\<close>\<close>

definition int_from_bytes_big :: "byte list \<Rightarrow> int" where
  "int_from_bytes_big bs = foldl (\<lambda>acc b. acc * 256 + uint b) 0 bs"

text \<open>
  \<open>hash_bytes = hashlib.md5(name.encode()).digest()\<close>, then
  \<open>int.from_bytes(hash_bytes[:8], byteorder='big') % (10**18)\<close>, and for a store
  \<open>+ 4261931000000000000\<close>.
\<close>

definition product_id :: "str \<Rightarrow> pyerr + int" where
  "product_id item_name =
     (case encode item_name of
        Inl e \<Rightarrow> Inl e
      | Inr data \<Rightarrow> Inr (int_from_bytes_big (take 8 (md5 data)) mod 10 ^ 18))"

definition store_id :: "str \<Rightarrow> pyerr + int" where
  "store_id name =
     (case encode name of
        Inl e \<Rightarrow> Inl e
      | Inr data \<Rightarrow>
          Inr (int_from_bytes_big (take 8 (md5 data)) mod 10 ^ 18 + 4261931000000000000))"

section \<open>Store synthesizer (create\_stores.py)\<close>

text \<open>
  Lines 5-11: the loop over the rows of the reader fills the set \<open>customers\<close>.
  \<open>row.get('Customer Name', '')\<close> is \<open>''\<close> when the header has no such column and
  \<open>None\<close> when the record is short; \<open>None.strip()\<close> raises and ends the script.
\<close>

fun read_customers :: "str set \<Rightarrow> row list \<Rightarrow> pyerr + str set" where
  "read_customers customers [] = Inr customers"
| "read_customers customers (row # rows) =
     (case cell_strip (get row (ascii ''Customer Name'') (Str [])) of
        Inl e \<Rightarrow> Inl e
      | Inr name \<Rightarrow>
          read_customers (if name \<noteq> [] then insert name customers else customers) rows)"

text \<open>
  Lines 17-31: one \<open>VALUES\<close> tuple per name. Of the tuple the model keeps the columns
  computed from the name (id, escaped name, city, state); the address, zip, phone and
  region are literals, and the e-mail is the escaped name in lower case.
\<close>

record store_value =
  sv_id :: int
  sv_sql_name :: str
  sv_city :: str
  sv_state :: str

definition city_of :: "str \<Rightarrow> str" where
  "city_of name =
     (if str_in (ascii ''SF'') name \<or> str_in (ascii ''San'') name then ascii ''San Francisco''
      else if str_in (ascii ''Portland'') name then ascii ''Portland''
      else if str_in (ascii ''Seattle'') name then ascii ''Seattle''
      else ascii ''Sacramento'')"

definition state_of :: "str \<Rightarrow> str" where
  "state_of city =
     (if city \<in> set [ascii ''San Francisco'', ascii ''Sacramento''] then ascii ''CA''
      else if city = ascii ''Portland'' then ascii ''OR''
      else ascii ''WA'')"

definition store_value :: "str \<Rightarrow> pyerr + store_value" where
  "store_value name =
     (case store_id name of
        Inl e \<Rightarrow> Inl e
      | Inr sid \<Rightarrow>
          Inr \<lparr>sv_id = sid,
               sv_sql_name = replace (of_char CHR 0x27) (ascii [CHR 0x27, CHR 0x27]) name,
               sv_city = city_of name,
               sv_state = state_of (city_of name)\<rparr>)"

fun store_values :: "str list \<Rightarrow> pyerr + store_value list" where
  "store_values [] = Inr []"
| "store_values (name # names) =
     (case store_value name of
        Inl e \<Rightarrow> Inl e
      | Inr v \<Rightarrow>
          (case store_values names of Inl e \<Rightarrow> Inl e | Inr vs \<Rightarrow> Inr (v # vs)))"

text \<open>
  The script: the number printed on line 13 (\<open>len(customers)\<close>) and the tuples
  joined on line 33, in the order of \<open>sorted(customers)\<close>.
\<close>

definition create_stores :: "row list \<Rightarrow> pyerr + (nat \<times> store_value list)" where
  "create_stores rows =
     (case read_customers {} rows of
        Inl e \<Rightarrow> Inl e
      | Inr customers \<Rightarrow>
          (case store_values (sorted_list_of_set customers) of
             Inl e \<Rightarrow> Inl e
           | Inr vals \<Rightarrow> Inr (card customers, vals)))"

section \<open>Product and invoice populator (populate\_all\_tables.py, lines 17-61)\<close>

text \<open>
  \<open>float(...)\<close> and \<open>str.lower()\<close> are Python built-ins that the script calls: the
  functions below take them as the parameters \<open>pyfloat\<close> (\<open>None\<close> where \<open>float\<close>
  raises \<open>ValueError\<close>) and \<open>lower\<close>. A number of the script is an \<open>int\<close> literal
  or a float.
\<close>

datatype 'f number = PyInt int | PyFloat 'f

text \<open>\<open>float(v)\<close> and \<open>v.replace(old, new)\<close> on a cell.\<close>

fun float_of :: "(str \<Rightarrow> 'f option) \<Rightarrow> cell \<Rightarrow> pyerr + 'f" where
  "float_of pyfloat PyNone = Inl TypeError"
| "float_of pyfloat (Str s) = (case pyfloat s of None \<Rightarrow> Inl ValueError | Some v \<Rightarrow> Inr v)"

fun cell_replace :: "nat \<Rightarrow> str \<Rightarrow> cell \<Rightarrow> pyerr + cell" where
  "cell_replace old new PyNone = Inl AttributeError"
| "cell_replace old new (Str s) = Inr (Str (replace old new s))"

text \<open>\<open>float(v.replace('$', '').replace(',', ''))\<close>\<close>

definition float_currency :: "(str \<Rightarrow> 'f option) \<Rightarrow> cell \<Rightarrow> pyerr + 'f" where
  "float_currency pyfloat v =
     (case cell_replace (of_char CHR ''$'') [] v of
        Inl e \<Rightarrow> Inl e
      | Inr v1 \<Rightarrow>
          (case cell_replace (of_char CHR '','') [] v1 of
             Inl e \<Rightarrow> Inl e
           | Inr v2 \<Rightarrow> float_of pyfloat v2))"

text \<open>Lines 32-35: the price, \<open>0.0\<close> on any exception.\<close>

definition parse_price :: "(str \<Rightarrow> 'f option) \<Rightarrow> row \<Rightarrow> 'f::zero" where
  "parse_price pyfloat row =
     (case float_currency pyfloat (get row (ascii ''Item Price'') (Str (ascii ''0''))) of
        Inl e \<Rightarrow> 0
      | Inr price \<Rightarrow> price)"

text \<open>Lines 48-53: quantity and total in one \<open>try\<close>; any exception sets both.\<close>

definition quantity_total :: "(str \<Rightarrow> 'f option) \<Rightarrow> row \<Rightarrow> 'f number \<times> 'f number" where
  "quantity_total pyfloat row =
     (case float_of pyfloat (get row (ascii ''Quantity'') (Str (ascii ''1''))) of
        Inl e \<Rightarrow> (PyInt 1, PyInt 0)
      | Inr quantity \<Rightarrow>
          (case float_currency pyfloat (get row (ascii ''Total'') (Str (ascii ''0''))) of
             Inl e \<Rightarrow> (PyInt 1, PyInt 0)
           | Inr tot \<Rightarrow> (PyFloat quantity, PyFloat tot)))"

text \<open>Lines 41-42: category and brand of a name.\<close>

definition category_of :: "(str \<Rightarrow> str) \<Rightarrow> str \<Rightarrow> str" where
  "category_of lower item_name =
     (if list_ex (\<lambda>x. str_in x (lower item_name))
           [ascii ''rice'', ascii ''dal'', ascii ''flour'', ascii ''oil'', ascii ''spice'']
      then ascii ''Food'' else ascii ''Grocery'')"

definition brand_of :: "str \<Rightarrow> pyerr + str" where
  "brand_of item_name =
     (if str_in (ascii '' '') item_name
      then (case split item_name of [] \<Rightarrow> Inl IndexError | w # ws \<Rightarrow> Inr w)
      else Inr (ascii ''Generic''))"

record 'f product =
  p_id :: int
  p_name :: str
  p_price :: 'f
  p_category :: str
  p_brand :: str

record 'f invoice_item =
  ii_invoice_id :: str
  ii_product_name :: str
  ii_quantity :: "'f number"
  ii_price :: 'f
  ii_total :: "'f number"

text \<open>
  The two module-level collections. \<open>products\<close> is a dict, which iterates in
  insertion order: the list of its items, a new key appended at the end.
\<close>

record 'f state =
  products :: "(str \<times> 'f product) list"
  invoice_items :: "'f invoice_item list"

text \<open>Lines 27-43: the entry for a name seen for the first time.\<close>

definition new_product ::
  "(str \<Rightarrow> 'f option) \<Rightarrow> (str \<Rightarrow> str) \<Rightarrow> row \<Rightarrow> str \<Rightarrow> pyerr + 'f::zero product" where
  "new_product pyfloat lower row item_name =
     (case product_id item_name of
        Inl e \<Rightarrow> Inl e
      | Inr pid \<Rightarrow>
          (case brand_of item_name of
             Inl e \<Rightarrow> Inl e
           | Inr brand \<Rightarrow>
               Inr \<lparr>p_id = pid, p_name = item_name, p_price = parse_price pyfloat row,
                    p_category = category_of lower item_name, p_brand = brand\<rparr>))"

text \<open>Lines 24-61: the body of the loop for one row.\<close>

definition read_row ::
  "(str \<Rightarrow> 'f option) \<Rightarrow> (str \<Rightarrow> str) \<Rightarrow> 'f state \<Rightarrow> row \<Rightarrow> pyerr + 'f::zero state" where
  "read_row pyfloat lower st row =
     (case cell_strip (get row (ascii ''Item Name'') (Str [])) of
        Inl e \<Rightarrow> Inl e
      | Inr item_name \<Rightarrow>
          (case (if item_name \<noteq> [] \<and> map_of (products st) item_name = None
                 then (case new_product pyfloat lower row item_name of
                         Inl e \<Rightarrow> Inl e
                       | Inr p \<Rightarrow> Inr (products st @ [(item_name, p)]))
                 else Inr (products st)) of
             Inl e \<Rightarrow> Inl e
           | Inr products' \<Rightarrow>
               (case get row (ascii ''Invoice ID'') (Str []) of
                  PyNone \<Rightarrow> Inr (st\<lparr>products := products'\<rparr>)
                | Str invoice_id \<Rightarrow>
                    if invoice_id \<noteq> [] \<and> item_name \<noteq> [] then
                      (case map_of products' item_name of
                         None \<Rightarrow> Inl KeyError
                       | Some p \<Rightarrow>
                           Inr \<lparr>products = products',
                                invoice_items = invoice_items st @
                                  [\<lparr>ii_invoice_id = invoice_id, ii_product_name = item_name,
                                    ii_quantity = fst (quantity_total pyfloat row),
                                    ii_price = p_price p,
                                    ii_total = snd (quantity_total pyfloat row)\<rparr>]\<rparr>)
                    else Inr (st\<lparr>products := products'\<rparr>))))"

fun read_rows ::
  "(str \<Rightarrow> 'f option) \<Rightarrow> (str \<Rightarrow> str) \<Rightarrow> 'f state \<Rightarrow> row list \<Rightarrow> pyerr + 'f::zero state" where
  "read_rows pyfloat lower st [] = Inr st"
| "read_rows pyfloat lower st (row # rows) =
     (case read_row pyfloat lower st row of
        Inl e \<Rightarrow> Inl e
      | Inr st' \<Rightarrow> read_rows pyfloat lower st' rows)"

definition read_csv ::
  "(str \<Rightarrow> 'f option) \<Rightarrow> (str \<Rightarrow> str) \<Rightarrow> row list \<Rightarrow> pyerr + 'f::zero state" where
  "read_csv pyfloat lower rows =
     read_rows pyfloat lower \<lparr>products = [], invoice_items = []\<rparr> rows"

text \<open>
  Lines 68-84: the insert loop walks \<open>products.items()\<close> and sends one parameter
  tuple per entry. Of the tuple the model keeps id, name, description, category, brand
  and price; the cost (\<open>price * 0.7\<close>), the random stock and the constant flag are
  left out.
\<close>

definition product_inserts :: "'f state \<Rightarrow> (int \<times> str \<times> str \<times> str \<times> str \<times> 'f) list" where
  "product_inserts st =
     map (\<lambda>(name, product).
            (p_id product, p_name product, ascii ''High quality '' @ p_name product,
             p_category product, p_brand product, p_price product))
       (products st)"

section \<open>Invoice-to-order matcher (populate\_all\_tables.py, lines 99-104)\<close>

text \<open>
  \<open>order_map\<close> is a dict from order numbers to order ids; the loop walks its items
  in iteration order and stops at the first order number that contains the invoice
  id or is contained in it. The dict is the list of its items in iteration order.
\<close>

fun match_order :: "str \<Rightarrow> (str \<times> 'v) list \<Rightarrow> 'v option" where
  "match_order invoice_id [] = None"
| "match_order invoice_id ((order_num, oid) # order_map) =
     (if str_in invoice_id order_num \<or> str_in order_num invoice_id then Some oid
      else match_order invoice_id order_map)"

text \<open>Containment as the specification words it: one string occurs inside the other.\<close>

definition substring_of :: "'a list \<Rightarrow> 'a list \<Rightarrow> bool" where
  "substring_of x s \<longleftrightarrow> (\<exists>p q. s = p @ x @ q)"

definition matches :: "str \<Rightarrow> str \<Rightarrow> bool" where
  "matches invoice_id order_num \<longleftrightarrow>
     substring_of order_num invoice_id \<or> substring_of invoice_id order_num"

section \<open>Recommendation query (populate\_all\_tables.py, lines 132-156)\<close>

text \<open>
  The script sends one \<open>INSERT ... SELECT\<close> statement to the database; the model
  follows the text of the statement. The rows of \<open>orders\<close> and \<open>products\<close> carry the
  columns the statement reads. Numbers are elements of an ordered field. \<open>RANDOM()\<close>
  is a stream \<open>rnd\<close> of draws, one consumed at each evaluation: one per joined row for
  the \<open>WHERE\<close> clause and one per selected row for the confidence score.
\<close>

record order_row =
  o_id :: int
  o_store_id :: int

record 'a product_row =
  pr_id :: int
  pr_price :: 'a
  pr_category :: str

record 'a recommendation =
  r_order_id :: int
  r_store_id :: int
  r_product_id :: int
  r_recommendation_type :: str
  r_confidence_score :: 'a
  r_expected_revenue :: 'a
  r_reason :: str
  r_status :: str

text \<open>The \<open>CASE\<close> expression and the select list.\<close>

definition recommendation_type :: "'a::linordered_field product_row \<Rightarrow> str" where
  "recommendation_type p =
     (if pr_price p > 50 then ascii ''upsell''
      else if pr_category p = ascii ''Food'' then ascii ''cross_sell''
      else ascii ''bundle'')"

definition select_list ::
  "order_row \<Rightarrow> 'a::linordered_field product_row \<Rightarrow> 'a \<Rightarrow> 'a recommendation" where
  "select_list ord p draw =
     \<lparr>r_order_id = o_id ord, r_store_id = o_store_id ord, r_product_id = pr_id p,
      r_recommendation_type = recommendation_type p,
      r_confidence_score = draw * 0.5 + 0.5,
      r_expected_revenue = pr_price p * 1.2,
      r_reason = ascii ''Frequently bought together'', r_status = ascii ''pending''\<rparr>"

text \<open>\<open>FROM orders o CROSS JOIN products p WHERE RANDOM() < 0.1 LIMIT n\<close> over the joined rows.\<close>

fun select_where_limit ::
  "(nat \<Rightarrow> 'a::linordered_field) \<Rightarrow> nat \<Rightarrow> nat \<Rightarrow> (order_row \<times> 'a product_row) list \<Rightarrow>
     'a recommendation list" where
  "select_where_limit rnd k limit [] = []"
| "select_where_limit rnd k limit ((ord, p) # joined) =
     (if limit = 0 then []
      else if rnd k < 0.1
      then select_list ord p (rnd (k + 1)) # select_where_limit rnd (k + 2) (limit - 1) joined
      else select_where_limit rnd (k + 1) limit joined)"

text \<open>
  \<open>INSERT ... ON CONFLICT DO NOTHING\<close>: a row that conflicts with a row of the table
  (or one inserted before it) is skipped. The constraints of the table are the
  parameter \<open>conflict\<close>; the result is the list of the rows inserted.
\<close>

fun insert_do_nothing :: "('r \<Rightarrow> 'r \<Rightarrow> bool) \<Rightarrow> 'r list \<Rightarrow> 'r list \<Rightarrow> 'r list" where
  "insert_do_nothing conflict table [] = []"
| "insert_do_nothing conflict table (r # rs) =
     (if list_ex (conflict r) table then insert_do_nothing conflict table rs
      else r # insert_do_nothing conflict (table @ [r]) rs)"

text \<open>The whole statement, with \<open>LIMIT 500\<close>.\<close>

definition generate_recommendations ::
  "(nat \<Rightarrow> 'a::linordered_field) \<Rightarrow> ('a recommendation \<Rightarrow> 'a recommendation \<Rightarrow> bool) \<Rightarrow>
     'a recommendation list \<Rightarrow> order_row list \<Rightarrow> 'a product_row list \<Rightarrow> 'a recommendation list" where
  "generate_recommendations rnd conflict table orders prods =
     insert_do_nothing conflict table
       (select_where_limit rnd 0 500 (List.product orders prods))"

section \<open>Reading the rows: notions used to state the properties\<close>

text \<open>
  A row has text in a column unless the reader filled the column with \<open>None\<close>. The
  name of a row in a column is the stripped text (blank where there is none); the
  names of a file are the non-blank ones, in file order, repetitions included.
\<close>

definition has_text :: "str \<Rightarrow> row \<Rightarrow> bool" where
  "has_text col row \<longleftrightarrow> get row col (Str []) \<noteq> PyNone"

definition name_of :: "str \<Rightarrow> row \<Rightarrow> str" where
  "name_of col row = (case get row col (Str []) of PyNone \<Rightarrow> [] | Str s \<Rightarrow> strip s)"

definition nonblank_names :: "str \<Rightarrow> row list \<Rightarrow> str list" where
  "nonblank_names col rows = filter (\<lambda>n. n \<noteq> []) (map (name_of col) rows)"

text \<open>The distinct elements of a list, in the order of their first occurrences.\<close>

definition firsts :: "'a list \<Rightarrow> 'a list" where
  "firsts xs = rev (remdups (rev xs))"

text \<open>
  The rows the loop collects as invoice items (lines 46-47), and the item it records
  for such a row, given the price found in \<open>products\<close>.
\<close>

definition invoice_id_of :: "row \<Rightarrow> str" where
  "invoice_id_of row =
     (case get row (ascii ''Invoice ID'') (Str []) of PyNone \<Rightarrow> [] | Str s \<Rightarrow> s)"

definition collected :: "row \<Rightarrow> bool" where
  "collected row \<longleftrightarrow> invoice_id_of row \<noteq> [] \<and> name_of (ascii ''Item Name'') row \<noteq> []"

definition item_of :: "(str \<Rightarrow> 'f option) \<Rightarrow> row \<Rightarrow> 'f \<Rightarrow> 'f invoice_item" where
  "item_of pyfloat row price =
     \<lparr>ii_invoice_id = invoice_id_of row, ii_product_name = name_of (ascii ''Item Name'') row,
      ii_quantity = fst (quantity_total pyfloat row), ii_price = price,
      ii_total = snd (quantity_total pyfloat row)\<rparr>"

subsection \<open>Example inputs\<close>

text \<open>A row written as the list of its columns.\<close>

definition csv_row :: "(string \<times> cell) list \<Rightarrow> row" where
  "csv_row kvs = map_of (map (\<lambda>(k, v). (ascii k, v)) kvs)"

text \<open>
  An instance of the parameter \<open>pyfloat\<close> for the examples: the value of a plain
  decimal literal (digits, then optionally a point and digits), and no value for any
  other string. On \<open>1234.50\<close>, \<open>5\<close>, \<open>2\<close>, \<open>21.00\<close> and \<open>10.50\<close> Python's \<open>float\<close>
  returns exactly this value, on \<open>N/A\<close> and \<open>abc\<close> it raises \<open>ValueError\<close>.
\<close>

definition digits_value :: "str \<Rightarrow> nat option" where
  "digits_value s =
     (if s \<noteq> [] \<and> list_all (\<lambda>c. 48 \<le> c \<and> c \<le> 57) s
      then Some (foldl (\<lambda>a c. 10 * a + (c - 48)) 0 s) else None)"

definition float_decimal :: "str \<Rightarrow> rat option" where
  "float_decimal s =
     (let a = takeWhile (\<lambda>c. c \<noteq> 46) s; b = dropWhile (\<lambda>c. c \<noteq> 46) s in
      case digits_value a of
        None \<Rightarrow> None
      | Some x \<Rightarrow>
          if b = [] then Some (of_nat x)
          else (case digits_value (tl b) of
                  None \<Rightarrow> None
                | Some y \<Rightarrow> Some (of_nat x + of_nat y / 10 ^ length (tl b))))"

text \<open>
  Three rows: two customers and two items, each of the first kind twice; the second
  row's quantity and the third row's total are not numbers.
\<close>

definition rows_two_customers :: "row list" where
  "rows_two_customers =
     [csv_row [(''Customer Name'', Str (ascii ''Zed Foods '')), (''Item Name'', Str (ascii ''Basmati Rice'')),
               (''Item Price'', Str (ascii ''$10.50'')), (''Invoice ID'', Str (ascii ''INV-1'')),
               (''Quantity'', Str (ascii ''2'')), (''Total'', Str (ascii ''$21.00''))],
      csv_row [(''Customer Name'', Str (ascii ''Acme'')), (''Item Name'', Str (ascii ''Toor Dal'')),
               (''Item Price'', Str (ascii ''7'')), (''Invoice ID'', Str (ascii ''INV-2'')),
               (''Quantity'', Str (ascii ''abc'')), (''Total'', Str (ascii ''5''))],
      csv_row [(''Customer Name'', Str (ascii '' Zed Foods'')), (''Item Name'', Str (ascii ''Basmati Rice'')),
               (''Item Price'', Str (ascii ''$12.00'')), (''Invoice ID'', Str (ascii ''INV-3'')),
               (''Quantity'', Str (ascii ''1'')), (''Total'', Str (ascii ''N/A''))]]"

text \<open>
  A file whose header is \<open>Invoice ID,Customer Name\<close> and whose second record is the
  single field \<open>INV-2\<close>.
\<close>

definition rows_short_customer :: "row list" where
  "rows_short_customer =
     [csv_row [(''Invoice ID'', Str (ascii ''INV-1'')), (''Customer Name'', Str (ascii ''Acme''))],
      csv_row [(''Invoice ID'', Str (ascii ''INV-2'')), (''Customer Name'', PyNone)]]"

text \<open>Two rows with the same blank item name and different prices.\<close>

definition rows_blank_items :: "row list" where
  "rows_blank_items =
     [csv_row [(''Invoice ID'', Str (ascii ''INV-1'')), (''Item Name'', Str (ascii '' '')),
               (''Item Price'', Str (ascii ''$1''))],
      csv_row [(''Invoice ID'', Str (ascii ''INV-2'')), (''Item Name'', Str (ascii '' '')),
               (''Item Price'', Str (ascii ''$2''))]]"

text \<open>
  Two rows with the same item name and different prices, then a record of one field
  under the header \<open>Invoice ID,Item Name,Item Price\<close>.
\<close>

definition rows_short_item :: "row list" where
  "rows_short_item =
     [csv_row [(''Invoice ID'', Str (ascii ''INV-1'')), (''Item Name'', Str (ascii ''Basmati Rice'')),
               (''Item Price'', Str (ascii ''$10.50''))],
      csv_row [(''Invoice ID'', Str (ascii ''INV-2'')), (''Item Name'', Str (ascii ''Basmati Rice'')),
               (''Item Price'', Str (ascii ''$12.00''))],
      csv_row [(''Invoice ID'', Str (ascii ''INV-3'')), (''Item Name'', PyNone),
               (''Item Price'', PyNone)]]"

text \<open>A collected row whose quantity is not a number and whose total is.\<close>

definition row_bad_quantity :: row where
  "row_bad_quantity =
     csv_row [(''Invoice ID'', Str (ascii ''INV-2'')), (''Item Name'', Str (ascii ''Toor Dal'')),
              (''Quantity'', Str (ascii ''abc'')), (''Total'', Str (ascii ''5''))]"

text \<open>
  The one MD5 block of the name \<open>Basmati Rice\<close> (its 12 bytes, the padding and the
  length in bits), and the sixteen little-endian words of that block.
\<close>

definition rice_words :: "u32 list" where
  "rice_words =
     [
       1836278082, 543781985, 1701013842, 128, 0, 0, 0, 0, 0, 0, 0, 0, 0, 0, 96, 0]"

definition rice_block :: "byte list" where
  "rice_block =
     [
       66, 97, 115, 109, 97, 116, 105, 32, 82, 105, 99, 101, 128, 0, 0, 0, 0, 0, 0, 0, 0,
       0, 0, 0, 0, 0, 0, 0, 0, 0, 0, 0, 0, 0, 0, 0, 0, 0, 0, 0, 0, 0, 0, 0, 0, 0, 0, 0, 0,
       0, 0, 0, 0, 0, 0, 0, 96, 0, 0, 0, 0, 0, 0, 0]"

section \<open>Properties\<close>

subsection \<open>Substring search and the matcher\<close>

lemma startswith_iff: "startswith s x \<longleftrightarrow> (\<exists>q. s = x @ q)"
  by (induction s x rule: startswith.induct) auto

lemma str_in_iff: "str_in x s \<longleftrightarrow> substring_of x s"
proof (induction s)
  case Nil
  show ?case by (auto simp: substring_of_def)
next
  case (Cons c s)
  show ?case
  proof
    assume "str_in x (c # s)"
    then consider "startswith (c # s) x" | "str_in x s" by auto
    then show "substring_of x (c # s)"
    proof cases
      case 1
      then obtain q where "c # s = [] @ x @ q" by (auto simp: startswith_iff)
      then show ?thesis unfolding substring_of_def by blast
    next
      case 2
      with Cons obtain p q where "s = p @ x @ q" by (auto simp: substring_of_def)
      then have "c # s = (c # p) @ x @ q" by simp
      then show ?thesis unfolding substring_of_def by blast
    qed
  next
    assume "substring_of x (c # s)"
    then obtain p q where pq: "c # s = p @ x @ q" by (auto simp: substring_of_def)
    show "str_in x (c # s)"
    proof (cases p)
      case Nil
      with pq have "startswith (c # s) x" by (auto simp: startswith_iff)
      then show ?thesis by simp
    next
      case (Cons a p')
      with pq have "s = p' @ x @ q" by simp
      then have "substring_of x s" unfolding substring_of_def by blast
      with Cons.IH show ?thesis by simp
    qed
  qed
qed

lemma match_order_None:
  "match_order iid om = None \<longleftrightarrow> (\<forall>i<length om. \<not> matches iid (fst (om ! i)))"
proof (induction om)
  case Nil
  show ?case by simp
next
  case (Cons e om)
  obtain num oid where e: "e = (num, oid)" by (cases e)
  show ?case
    using Cons.IH by (auto simp: e matches_def str_in_iff less_Suc_eq_0_disj)
qed

lemma match_order_Some:
  "match_order iid om = Some oid \<longleftrightarrow>
     (\<exists>i<length om. snd (om ! i) = oid \<and> matches iid (fst (om ! i)) \<and>
        (\<forall>j<i. \<not> matches iid (fst (om ! j))))"
proof (induction om)
  case Nil
  show ?case by simp
next
  case (Cons e om)
  obtain num v where e: "e = (num, v)" by (cases e)
  show ?case
  proof (cases "matches iid num")
    case True
    then have "match_order iid (e # om) = Some v"
      by (auto simp: e matches_def str_in_iff)
    moreover have "(\<exists>i<length (e # om). snd ((e # om) ! i) = oid \<and>
        matches iid (fst ((e # om) ! i)) \<and>
        (\<forall>j<i. \<not> matches iid (fst ((e # om) ! j)))) \<longleftrightarrow> v = oid"
    proof
      assume "\<exists>i<length (e # om). snd ((e # om) ! i) = oid \<and>
        matches iid (fst ((e # om) ! i)) \<and>
        (\<forall>j<i. \<not> matches iid (fst ((e # om) ! j)))"
      then obtain i where i: "snd ((e # om) ! i) = oid"
        "\<forall>j<i. \<not> matches iid (fst ((e # om) ! j))" by blast
      have "i = 0"
      proof (rule ccontr)
        assume "i \<noteq> 0"
        then have "0 < i" by simp
        with i(2) have "\<not> matches iid (fst ((e # om) ! 0))" by blast
        with True show False by (simp add: e)
      qed
      with i(1) show "v = oid" by (simp add: e)
    next
      assume "v = oid"
      with True have "snd ((e # om) ! 0) = oid \<and> matches iid (fst ((e # om) ! 0)) \<and>
        (\<forall>j<0. \<not> matches iid (fst ((e # om) ! j)))" by (simp add: e)
      then show "\<exists>i<length (e # om). snd ((e # om) ! i) = oid \<and>
        matches iid (fst ((e # om) ! i)) \<and>
        (\<forall>j<i. \<not> matches iid (fst ((e # om) ! j)))" by (intro exI[of _ 0]) simp
    qed
    ultimately show ?thesis by auto
  next
    case False
    then have step: "match_order iid (e # om) = match_order iid om"
      by (auto simp: e matches_def str_in_iff)
    have "(\<exists>i<length (e # om). snd ((e # om) ! i) = oid \<and>
        matches iid (fst ((e # om) ! i)) \<and>
        (\<forall>j<i. \<not> matches iid (fst ((e # om) ! j)))) \<longleftrightarrow>
      (\<exists>i<length om. snd (om ! i) = oid \<and> matches iid (fst (om ! i)) \<and>
        (\<forall>j<i. \<not> matches iid (fst (om ! j))))" (is "?L \<longleftrightarrow> ?R")
    proof
      assume ?L
      then obtain i where i: "i < length (e # om)" "snd ((e # om) ! i) = oid"
        "matches iid (fst ((e # om) ! i))"
        "\<forall>j<i. \<not> matches iid (fst ((e # om) ! j))" by blast
      have "i \<noteq> 0"
      proof
        assume "i = 0"
        with i(3) have "matches iid num" by (simp add: e)
        with False show False by simp
      qed
      then obtain k where k: "i = Suc k" by (cases i) auto
      have "\<forall>j<k. \<not> matches iid (fst (om ! j))"
      proof (intro allI impI)
        fix j assume "j < k"
        then have "Suc j < i" by (simp add: k)
        with i(4) have "\<not> matches iid (fst ((e # om) ! Suc j))" by blast
        then show "\<not> matches iid (fst (om ! j))" by simp
      qed
      with i(1-3) show ?R by (auto simp: k)
    next
      assume ?R
      then obtain i where i: "i < length om" "snd (om ! i) = oid"
        "matches iid (fst (om ! i))" "\<forall>j<i. \<not> matches iid (fst (om ! j))" by blast
      have "\<forall>j<Suc i. \<not> matches iid (fst ((e # om) ! j))"
      proof (intro allI impI)
        fix j assume j: "j < Suc i"
        show "\<not> matches iid (fst ((e # om) ! j))"
        proof (cases j)
          case 0
          with False show ?thesis by (simp add: e)
        next
          case (Suc j')
          with j i(4) show ?thesis by simp
        qed
      qed
      with i(1-3) show ?L by (intro exI[of _ "Suc i"]) simp
    qed
    with step Cons.IH show ?thesis by simp
  qed
qed

lemma ascii_simps:
  "ascii [] = []"
  "ascii (c # cs) = of_char c # ascii cs"
  by (simp_all add: ascii_def)

text \<open>
  C1. For every invoice identifier and every mapping from order numbers to order ids
  (its items in iteration order), the matcher returns the id of the first entry whose
  order number is a substring of the invoice identifier or contains it, and none
  exactly when no entry does; for \<open>{"INV-100": 1, "INV-200": 2}\<close> and the invoice
  identifier \<open>"INV-1000X"\<close> it returns 1.
\<close>

theorem match_order_first_match:
  "(match_order iid om = None \<longleftrightarrow> (\<forall>i<length om. \<not> matches iid (fst (om ! i)))) \<and>
   (match_order iid om = Some oid \<longleftrightarrow>
      (\<exists>i<length om. snd (om ! i) = oid \<and> matches iid (fst (om ! i)) \<and>
         (\<forall>j<i. \<not> matches iid (fst (om ! j))))) \<and>
   match_order (ascii ''INV-1000X'')
      [(ascii ''INV-100'', 1::int), (ascii ''INV-200'', 2)] = Some 1"
  by (simp add: match_order_None match_order_Some ascii_simps)

theorem match_order_first_match_witness:
  "\<exists>i<length [(ascii ''INV-100'', 1::int), (ascii ''INV-200'', 2)].
      snd ([(ascii ''INV-100'', 1::int), (ascii ''INV-200'', 2)] ! i) = 2 \<and>
      matches (ascii ''X-INV-200'') (fst ([(ascii ''INV-100'', 1::int), (ascii ''INV-200'', 2)] ! i)) \<and>
      (\<forall>j<i. \<not> matches (ascii ''X-INV-200'')
         (fst ([(ascii ''INV-100'', 1::int), (ascii ''INV-200'', 2)] ! j)))"
  using match_order_first_match [of "ascii ''X-INV-200''"
      "[(ascii ''INV-100'', 1::int), (ascii ''INV-200'', 2)]" 2]
  by (simp add: ascii_simps)

subsection \<open>The identifiers\<close>

lemma length_le_bytes: "length (le_bytes n w) = n"
  by (simp add: le_bytes_def)

lemma length_md5: "length (md5 m) = 16"
  by (simp add: md5_def Let_def length_le_bytes)

lemma int_from_bytes_big_snoc:
  "int_from_bytes_big (bs @ [b]) = int_from_bytes_big bs * 256 + uint b"
  by (simp add: int_from_bytes_big_def)

lemma int_from_bytes_big_sum:
  "int_from_bytes_big bs = (\<Sum>i<length bs. uint (bs ! i) * 256 ^ (length bs - 1 - i))"
proof (induction bs rule: rev_induct)
  case Nil
  show ?case by (simp add: int_from_bytes_big_def)
next
  case (snoc b bs)
  have "(\<Sum>i<length bs. uint (bs ! i) * 256 ^ (length bs - i)) =
        (\<Sum>i<length bs. uint (bs ! i) * 256 ^ (length bs - 1 - i) * 256)"
  proof (rule sum.cong)
    fix i assume "i \<in> {..<length bs}"
    then have "length bs - i = Suc (length bs - 1 - i)" by auto
    then show "uint (bs ! i) * 256 ^ (length bs - i) =
               uint (bs ! i) * 256 ^ (length bs - 1 - i) * 256" by simp
  qed simp
  then have "(\<Sum>i<length bs. uint (bs ! i) * 256 ^ (length bs - i)) =
             int_from_bytes_big bs * 256"
    by (simp add: snoc.IH sum_distrib_right)
  then show ?case
    by (simp add: int_from_bytes_big_snoc nth_append)
qed

lemma int_from_bytes_big_bounds:
  "0 \<le> int_from_bytes_big bs \<and> int_from_bytes_big bs < 256 ^ length bs"
proof (induction bs rule: rev_induct)
  case Nil
  show ?case by (simp add: int_from_bytes_big_def)
next
  case (snoc b bs)
  have b: "0 \<le> uint b" "uint b < 256"
    using uint_bounded [of b] by simp_all
  from snoc have "int_from_bytes_big bs + 1 \<le> 256 ^ length bs" by simp
  then have "(int_from_bytes_big bs + 1) * 256 \<le> 256 ^ length bs * 256"
    by (rule mult_right_mono) simp
  with snoc b show ?case
    by (simp add: int_from_bytes_big_snoc algebra_simps)
qed

lemma encode_scalar:
  "list_all scalar_value s \<Longrightarrow> encode s = Inr (concat (map utf8_char s))"
  by (simp add: encode_def)

lemma ids_of_scalar:
  assumes "list_all scalar_value name"
  shows "\<exists>p. product_id name = Inr p \<and> store_id name = Inr (p + 4261931000000000000) \<and>
           0 \<le> p \<and> p < 10 ^ 18"
  using assms by (simp add: product_id_def store_id_def encode_scalar)

subsection \<open>A test vector: the identifiers of \<open>Basmati Rice\<close>\<close>

text \<open>
  The 64 steps of the block, one after the other; then the digest
  \<open>7ad2b86ceeff6697071c98c5d882e083\<close> and the two identifiers, as \<open>hashlib\<close> and the
  scripts compute them.
\<close>

lemma rice_rounds:
  "md5_round rice_words \<lparr>A = 1732584193, B = 4023233417, C = 2562383102, D = 271733878\<rparr> 0 =
     \<lparr>A = 271733878, B = 1590724651, C = 4023233417, D = 2562383102\<rparr>"
  "md5_round rice_words \<lparr>A = 271733878, B = 1590724651, C = 4023233417, D = 2562383102\<rparr> 1 =
     \<lparr>A = 2562383102, B = 1151415983, C = 1590724651, D = 4023233417\<rparr>"
  "md5_round rice_words \<lparr>A = 2562383102, B = 1151415983, C = 1590724651, D = 4023233417\<rparr> 2 =
     \<lparr>A = 4023233417, B = 3310181061, C = 1151415983, D = 1590724651\<rparr>"
  "md5_round rice_words \<lparr>A = 4023233417, B = 3310181061, C = 1151415983, D = 1590724651\<rparr> 3 =
     \<lparr>A = 1590724651, B = 785474056, C = 3310181061, D = 1151415983\<rparr>"
  "md5_round rice_words \<lparr>A = 1590724651, B = 785474056, C = 3310181061, D = 1151415983\<rparr> 4 =
     \<lparr>A = 1151415983, B = 2244518612, C = 785474056, D = 3310181061\<rparr>"
  "md5_round rice_words \<lparr>A = 1151415983, B = 2244518612, C = 785474056, D = 3310181061\<rparr> 5 =
     \<lparr>A = 3310181061, B = 1832275938, C = 2244518612, D = 785474056\<rparr>"
  "md5_round rice_words \<lparr>A = 3310181061, B = 1832275938, C = 2244518612, D = 785474056\<rparr> 6 =
     \<lparr>A = 785474056, B = 4101454431, C = 1832275938, D = 2244518612\<rparr>"
  "md5_round rice_words \<lparr>A = 785474056, B = 4101454431, C = 1832275938, D = 2244518612\<rparr> 7 =
     \<lparr>A = 2244518612, B = 1734062079, C = 4101454431, D = 1832275938\<rparr>"
  "md5_round rice_words \<lparr>A = 2244518612, B = 1734062079, C = 4101454431, D = 1832275938\<rparr> 8 =
     \<lparr>A = 1832275938, B = 1202632108, C = 1734062079, D = 4101454431\<rparr>"
  "md5_round rice_words \<lparr>A = 1832275938, B = 1202632108, C = 1734062079, D = 4101454431\<rparr> 9 =
     \<lparr>A = 4101454431, B = 3072836777, C = 1202632108, D = 1734062079\<rparr>"
  "md5_round rice_words \<lparr>A = 4101454431, B = 3072836777, C = 1202632108, D = 1734062079\<rparr> 10 =
     \<lparr>A = 1734062079, B = 1128545427, C = 3072836777, D = 1202632108\<rparr>"
  "md5_round rice_words \<lparr>A = 1734062079, B = 1128545427, C = 3072836777, D = 1202632108\<rparr> 11 =
     \<lparr>A = 1202632108, B = 2650953302, C = 1128545427, D = 3072836777\<rparr>"
  "md5_round rice_words \<lparr>A = 1202632108, B = 2650953302, C = 1128545427, D = 3072836777\<rparr> 12 =
     \<lparr>A = 3072836777, B = 3492813633, C = 2650953302, D = 1128545427\<rparr>"
  "md5_round rice_words \<lparr>A = 3072836777, B = 3492813633, C = 2650953302, D = 1128545427\<rparr> 13 =
     \<lparr>A = 1128545427, B = 385941441, C = 3492813633, D = 2650953302\<rparr>"
  "md5_round rice_words \<lparr>A = 1128545427, B = 385941441, C = 3492813633, D = 2650953302\<rparr> 14 =
     \<lparr>A = 2650953302, B = 1320289088, C = 385941441, D = 3492813633\<rparr>"
  "md5_round rice_words \<lparr>A = 2650953302, B = 1320289088, C = 385941441, D = 3492813633\<rparr> 15 =
     \<lparr>A = 3492813633, B = 3167842526, C = 1320289088, D = 385941441\<rparr>"
  "md5_round rice_words \<lparr>A = 3492813633, B = 3167842526, C = 1320289088, D = 385941441\<rparr> 16 =
     \<lparr>A = 385941441, B = 706095462, C = 3167842526, D = 1320289088\<rparr>"
  "md5_round rice_words \<lparr>A = 385941441, B = 706095462, C = 3167842526, D = 1320289088\<rparr> 17 =
     \<lparr>A = 1320289088, B = 1415571593, C = 706095462, D = 3167842526\<rparr>"
  "md5_round rice_words \<lparr>A = 1320289088, B = 1415571593, C = 706095462, D = 3167842526\<rparr> 18 =
     \<lparr>A = 3167842526, B = 1177439074, C = 1415571593, D = 706095462\<rparr>"
  "md5_round rice_words \<lparr>A = 3167842526, B = 1177439074, C = 1415571593, D = 706095462\<rparr> 19 =
     \<lparr>A = 706095462, B = 2172973080, C = 1177439074, D = 1415571593\<rparr>"
  "md5_round rice_words \<lparr>A = 706095462, B = 2172973080, C = 1177439074, D = 1415571593\<rparr> 20 =
     \<lparr>A = 1415571593, B = 3469252024, C = 2172973080, D = 1177439074\<rparr>"
  "md5_round rice_words \<lparr>A = 1415571593, B = 3469252024, C = 2172973080, D = 1177439074\<rparr> 21 =
     \<lparr>A = 1177439074, B = 673496564, C = 3469252024, D = 2172973080\<rparr>"
  "md5_round rice_words \<lparr>A = 1177439074, B = 673496564, C = 3469252024, D = 2172973080\<rparr> 22 =
     \<lparr>A = 2172973080, B = 1644796219, C = 673496564, D = 3469252024\<rparr>"
  "md5_round rice_words \<lparr>A = 2172973080, B = 1644796219, C = 673496564, D = 3469252024\<rparr> 23 =
     \<lparr>A = 3469252024, B = 3084276117, C = 1644796219, D = 673496564\<rparr>"
  "md5_round rice_words \<lparr>A = 3469252024, B = 3084276117, C = 1644796219, D = 673496564\<rparr> 24 =
     \<lparr>A = 673496564, B = 247789887, C = 3084276117, D = 1644796219\<rparr>"
  "md5_round rice_words \<lparr>A = 673496564, B = 247789887, C = 3084276117, D = 1644796219\<rparr> 25 =
     \<lparr>A = 1644796219, B = 1946471493, C = 247789887, D = 3084276117\<rparr>"
  "md5_round rice_words \<lparr>A = 1644796219, B = 1946471493, C = 247789887, D = 3084276117\<rparr> 26 =
     \<lparr>A = 3084276117, B = 1474375933, C = 1946471493, D = 247789887\<rparr>"
  "md5_round rice_words \<lparr>A = 3084276117, B = 1474375933, C = 1946471493, D = 247789887\<rparr> 27 =
     \<lparr>A = 247789887, B = 131624966, C = 1474375933, D = 1946471493\<rparr>"
  "md5_round rice_words \<lparr>A = 247789887, B = 131624966, C = 1474375933, D = 1946471493\<rparr> 28 =
     \<lparr>A = 1946471493, B = 421711902, C = 131624966, D = 1474375933\<rparr>"
  "md5_round rice_words \<lparr>A = 1946471493, B = 421711902, C = 131624966, D = 1474375933\<rparr> 29 =
     \<lparr>A = 1474375933, B = 964045805, C = 421711902, D = 131624966\<rparr>"
  "md5_round rice_words \<lparr>A = 1474375933, B = 964045805, C = 421711902, D = 131624966\<rparr> 30 =
     \<lparr>A = 131624966, B = 4000506397, C = 964045805, D = 421711902\<rparr>"
  "md5_round rice_words \<lparr>A = 131624966, B = 4000506397, C = 964045805, D = 421711902\<rparr> 31 =
     \<lparr>A = 421711902, B = 2001648055, C = 4000506397, D = 964045805\<rparr>"
  "md5_round rice_words \<lparr>A = 421711902, B = 2001648055, C = 4000506397, D = 964045805\<rparr> 32 =
     \<lparr>A = 964045805, B = 231101490, C = 2001648055, D = 4000506397\<rparr>"
  "md5_round rice_words \<lparr>A = 964045805, B = 231101490, C = 2001648055, D = 4000506397\<rparr> 33 =
     \<lparr>A = 4000506397, B = 525764321, C = 231101490, D = 2001648055\<rparr>"
  "md5_round rice_words \<lparr>A = 4000506397, B = 525764321, C = 231101490, D = 2001648055\<rparr> 34 =
     \<lparr>A = 2001648055, B = 3455731919, C = 525764321, D = 231101490\<rparr>"
  "md5_round rice_words \<lparr>A = 2001648055, B = 3455731919, C = 525764321, D = 231101490\<rparr> 35 =
     \<lparr>A = 231101490, B = 3986987029, C = 3455731919, D = 525764321\<rparr>"
  "md5_round rice_words \<lparr>A = 231101490, B = 3986987029, C = 3455731919, D = 525764321\<rparr> 36 =
     \<lparr>A = 525764321, B = 219490614, C = 3986987029, D = 3455731919\<rparr>"
  "md5_round rice_words \<lparr>A = 525764321, B = 219490614, C = 3986987029, D = 3455731919\<rparr> 37 =
     \<lparr>A = 3455731919, B = 395894266, C = 219490614, D = 3986987029\<rparr>"
  "md5_round rice_words \<lparr>A = 3455731919, B = 395894266, C = 219490614, D = 3986987029\<rparr> 38 =
     \<lparr>A = 3986987029, B = 413243865, C = 395894266, D = 219490614\<rparr>"
  "md5_round rice_words \<lparr>A = 3986987029, B = 413243865, C = 395894266, D = 219490614\<rparr> 39 =
     \<lparr>A = 219490614, B = 3858293305, C = 413243865, D = 395894266\<rparr>"
  "md5_round rice_words \<lparr>A = 219490614, B = 3858293305, C = 413243865, D = 395894266\<rparr> 40 =
     \<lparr>A = 395894266, B = 3978150811, C = 3858293305, D = 413243865\<rparr>"
  "md5_round rice_words \<lparr>A = 395894266, B = 3978150811, C = 3858293305, D = 413243865\<rparr> 41 =
     \<lparr>A = 413243865, B = 2115719066, C = 3978150811, D = 3858293305\<rparr>"
  "md5_round rice_words \<lparr>A = 413243865, B = 2115719066, C = 3978150811, D = 3858293305\<rparr> 42 =
     \<lparr>A = 3858293305, B = 3073487913, C = 2115719066, D = 3978150811\<rparr>"
  "md5_round rice_words \<lparr>A = 3858293305, B = 3073487913, C = 2115719066, D = 3978150811\<rparr> 43 =
     \<lparr>A = 3978150811, B = 1782124612, C = 3073487913, D = 2115719066\<rparr>"
  "md5_round rice_words \<lparr>A = 3978150811, B = 1782124612, C = 3073487913, D = 2115719066\<rparr> 44 =
     \<lparr>A = 2115719066, B = 178326778, C = 1782124612, D = 3073487913\<rparr>"
  "md5_round rice_words \<lparr>A = 2115719066, B = 178326778, C = 1782124612, D = 3073487913\<rparr> 45 =
     \<lparr>A = 3073487913, B = 254918367, C = 178326778, D = 1782124612\<rparr>"
  "md5_round rice_words \<lparr>A = 3073487913, B = 254918367, C = 178326778, D = 1782124612\<rparr> 46 =
     \<lparr>A = 1782124612, B = 3803448668, C = 254918367, D = 178326778\<rparr>"
  "md5_round rice_words \<lparr>A = 1782124612, B = 3803448668, C = 254918367, D = 178326778\<rparr> 47 =
     \<lparr>A = 178326778, B = 2633088031, C = 3803448668, D = 254918367\<rparr>"
  "md5_round rice_words \<lparr>A = 178326778, B = 2633088031, C = 3803448668, D = 254918367\<rparr> 48 =
     \<lparr>A = 254918367, B = 1062466817, C = 2633088031, D = 3803448668\<rparr>"
  "md5_round rice_words \<lparr>A = 254918367, B = 1062466817, C = 2633088031, D = 3803448668\<rparr> 49 =
     \<lparr>A = 3803448668, B = 1532805337, C = 1062466817, D = 2633088031\<rparr>"
  "md5_round rice_words \<lparr>A = 3803448668, B = 1532805337, C = 1062466817, D = 2633088031\<rparr> 50 =
     \<lparr>A = 2633088031, B = 193636867, C = 1532805337, D = 1062466817\<rparr>"
  "md5_round rice_words \<lparr>A = 2633088031, B = 193636867, C = 1532805337, D = 1062466817\<rparr> 51 =
     \<lparr>A = 1062466817, B = 3679451387, C = 193636867, D = 1532805337\<rparr>"
  "md5_round rice_words \<lparr>A = 1062466817, B = 3679451387, C = 193636867, D = 1532805337\<rparr> 52 =
     \<lparr>A = 1532805337, B = 544811297, C = 3679451387, D = 193636867\<rparr>"
  "md5_round rice_words \<lparr>A = 1532805337, B = 544811297, C = 3679451387, D = 193636867\<rparr> 53 =
     \<lparr>A = 193636867, B = 2428824967, C = 544811297, D = 3679451387\<rparr>"
  "md5_round rice_words \<lparr>A = 193636867, B = 2428824967, C = 544811297, D = 3679451387\<rparr> 54 =
     \<lparr>A = 3679451387, B = 3277340043, C = 2428824967, D = 544811297\<rparr>"
  "md5_round rice_words \<lparr>A = 3679451387, B = 3277340043, C = 2428824967, D = 544811297\<rparr> 55 =
     \<lparr>A = 544811297, B = 1947355270, C = 3277340043, D = 2428824967\<rparr>"
  "md5_round rice_words \<lparr>A = 544811297, B = 1947355270, C = 3277340043, D = 2428824967\<rparr> 56 =
     \<lparr>A = 2428824967, B = 2505441753, C = 1947355270, D = 3277340043\<rparr>"
  "md5_round rice_words \<lparr>A = 2428824967, B = 2505441753, C = 1947355270, D = 3277340043\<rparr> 57 =
     \<lparr>A = 3277340043, B = 4074081084, C = 2505441753, D = 1947355270\<rparr>"
  "md5_round rice_words \<lparr>A = 3277340043, B = 4074081084, C = 2505441753, D = 1947355270\<rparr> 58 =
     \<lparr>A = 1947355270, B = 2457302462, C = 4074081084, D = 2505441753\<rparr>"
  "md5_round rice_words \<lparr>A = 1947355270, B = 2457302462, C = 4074081084, D = 2505441753\<rparr> 59 =
     \<lparr>A = 2505441753, B = 1739636311, C = 2457302462, D = 4074081084\<rparr>"
  "md5_round rice_words \<lparr>A = 2505441753, B = 1739636311, C = 2457302462, D = 4074081084\<rparr> 60 =
     \<lparr>A = 4074081084, B = 91467641, C = 1739636311, D = 2457302462\<rparr>"
  "md5_round rice_words \<lparr>A = 4074081084, B = 91467641, C = 1739636311, D = 2457302462\<rparr> 61 =
     \<lparr>A = 2457302462, B = 1940794978, C = 91467641, D = 1739636311\<rparr>"
  "md5_round rice_words \<lparr>A = 2457302462, B = 1940794978, C = 91467641, D = 1739636311\<rparr> 62 =
     \<lparr>A = 1739636311, B = 752697097, C = 1940794978, D = 91467641\<rparr>"
  "md5_round rice_words \<lparr>A = 1739636311, B = 752697097, C = 1940794978, D = 91467641\<rparr> 63 =
     \<lparr>A = 91467641, B = 2811843685, C = 752697097, D = 1940794978\<rparr>"
  by (simp_all add: rice_words_def md5_round_def md5_K_def md5_s_def rotl32_def Let_def)

lemma upt_to_64:
  "[0..<64] = [0..<16] @ [16..<32] @ [32..<48] @ [48..<64]"
  "[0..<16] = [0, 1, 2, 3, 4, 5, 6, 7, 8, 9, 10, 11, 12, 13, 14, 15]"
  "[16..<32] = [16, 17, 18, 19, 20, 21, 22, 23, 24, 25, 26, 27, 28, 29, 30, 31]"
  "[32..<48] = [32, 33, 34, 35, 36, 37, 38, 39, 40, 41, 42, 43, 44, 45, 46, 47]"
  "[48..<64] = [48, 49, 50, 51, 52, 53, 54, 55, 56, 57, 58, 59, 60, 61, 62, 63]"
  "[0..<8] = [0, 1, 2, 3, 4, 5, 6, 7]"
  "[0..<4] = [0, 1, 2, 3]"
  "[0..<1] = [0]"
  by code_simp+

lemma zeros_43: "replicate 43 (0::byte) = [0, 0, 0, 0, 0, 0, 0, 0, 0, 0, 0, 0, 0, 0, 0, 0, 0, 0, 0,
    0, 0, 0, 0, 0, 0, 0, 0, 0, 0, 0, 0, 0, 0, 0, 0, 0, 0, 0, 0, 0, 0, 0, 0]"
  by (simp add: numeral_eq_Suc)

lemma rice_encode: "encode (ascii ''Basmati Rice'') = Inr [66, 97, 115, 109, 97, 116, 105, 32, 82, 105, 99, 101]"
  by (simp add: encode_def utf8_char_def scalar_value_def ascii_simps)

lemma rice_pad: "md5_pad [66, 97, 115, 109, 97, 116, 105, 32, 82, 105, 99, 101] = rice_block"
  by (simp add: md5_pad_def le_bytes_def upt_to_64 rice_block_def zeros_43)

lemma rice_block_words:
  "map (\<lambda>j. le_word (take 4 (drop (4 * j) rice_block))) [0..<16] = rice_words"
  by (simp add: upt_to_64 le_word_def rice_words_def rice_block_def)

lemma rice_fold:
  "foldl (md5_round rice_words) \<lparr>A = 1732584193, B = 4023233417, C = 2562383102, D = 271733878\<rparr> [0..<64] =
     \<lparr>A = 91467641, B = 2811843685, C = 752697097, D = 1940794978\<rparr>"
  by (simp only: upt_to_64 foldl_append foldl.simps rice_rounds)

lemma rice_md5_block:
  "md5_block \<lparr>A = 1732584193, B = 4023233417, C = 2562383102, D = 271733878\<rparr> rice_block =
     \<lparr>A = 1824051834, B = 2540109806, C = 3315080199, D = 2212528856\<rparr>"
  by (simp only: md5_block_def Let_def rice_block_words rice_fold) simp

lemma rice_blocks:
  "map (\<lambda>k. take 64 (drop (64 * k) rice_block)) [0..<length rice_block div 64] = [rice_block]"
  by (simp add: rice_block_def upt_to_64)

lemma rice_md5:
  "md5 [66, 97, 115, 109, 97, 116, 105, 32, 82, 105, 99, 101] =
     [122, 210, 184, 108, 238, 255, 102, 151, 7, 28, 152, 197, 216, 130, 224, 131]"
  by (simp only: md5_def Let_def rice_pad rice_blocks foldl.simps rice_md5_block)
     (simp add: le_bytes_def upt_to_64)

lemma rice_ids:
  "product_id (ascii ''Basmati Rice'') = Inr 850338995742140055"
  "store_id (ascii ''Basmati Rice'') = Inr 5112269995742140055"
  by (simp_all add: product_id_def store_id_def rice_encode rice_md5 int_from_bytes_big_def)

lemma utf8_char_examples:
  "utf8_char 0xE9 = [0xC3, 0xA9]"
  "utf8_char 0x20AC = [0xE2, 0x82, 0xAC]"
  "utf8_char 0x1F600 = [0xF0, 0x9F, 0x98, 0x80]"
  by (simp_all add: utf8_char_def)

text \<open>
  C2. For every name (of a file decoded as UTF-8, so every code point is a scalar
  value; the empty name included), the derived identifier is the first 8 bytes of the
  16-byte (128-bit) MD5 digest of the name's UTF-8 encoding, read as a big-endian
  unsigned integer (below \<open>2^64\<close>), reduced modulo \<open>10^18\<close>; the product identifier is that value,
  the store identifier adds the positive constant 4261931000000000000; both are
  non-negative.
\<close>

theorem derived_identifier_value:
  assumes "list_all scalar_value name"
  shows "\<exists>data h. encode name = Inr data \<and> length (md5 data) = 16 \<and>
           h = (\<Sum>i<8. uint (md5 data ! i) * 256 ^ (7 - i)) \<and> 0 \<le> h \<and> h < 2 ^ 64 \<and>
           product_id name = Inr (h mod 10 ^ 18) \<and>
           store_id name = Inr (h mod 10 ^ 18 + 4261931000000000000) \<and>
           (0::int) < 4261931000000000000 \<and>
           0 \<le> h mod 10 ^ 18 \<and> 0 \<le> h mod 10 ^ 18 + 4261931000000000000"
proof -
  define data where "data = concat (map utf8_char name)"
  define h where "h = int_from_bytes_big (take 8 (md5 data))"
  have enc: "encode name = Inr data"
    using assms by (simp add: encode_scalar data_def)
  have len: "length (take 8 (md5 data)) = 8"
    by (simp add: length_md5)
  have "h = (\<Sum>i<8. uint (take 8 (md5 data) ! i) * 256 ^ (8 - 1 - i))"
    unfolding h_def using int_from_bytes_big_sum [of "take 8 (md5 data)"]
    by (simp only: len)
  then have h: "h = (\<Sum>i<8. uint (md5 data ! i) * 256 ^ (7 - i))"
    by simp
  have nonneg: "0 \<le> h mod 10 ^ 18" by simp
  have range: "0 \<le> h \<and> h < 2 ^ 64"
    unfolding h_def using int_from_bytes_big_bounds [of "take 8 (md5 data)"]
    by (simp only: len) simp
  have "product_id name = Inr (h mod 10 ^ 18)"
    by (simp add: product_id_def enc h_def)
  moreover have "store_id name = Inr (h mod 10 ^ 18 + 4261931000000000000)"
    by (simp add: store_id_def enc h_def)
  ultimately show ?thesis
    using enc h nonneg range length_md5 [of data]
    by (intro exI [of _ data] exI [of _ h]) simp
qed

theorem derived_identifier_value_witness:
  "\<exists>data h. encode (ascii ''Basmati Rice'') = Inr data \<and>
      h = (\<Sum>i<8. uint (md5 data ! i) * 256 ^ (7 - i)) \<and>
      h mod 10 ^ 18 = 850338995742140055 \<and>
      product_id (ascii ''Basmati Rice'') = Inr 850338995742140055 \<and>
      store_id (ascii ''Basmati Rice'') = Inr 5112269995742140055"
proof -
  have "list_all scalar_value (ascii ''Basmati Rice'')"
    by (simp add: ascii_simps scalar_value_def)
  from derived_identifier_value [OF this] obtain data h where
    dh: "encode (ascii ''Basmati Rice'') = Inr data"
      "h = (\<Sum>i<8. uint (md5 data ! i) * 256 ^ (7 - i))"
      "product_id (ascii ''Basmati Rice'') = Inr (h mod 10 ^ 18)" by blast
  from dh(3) have "h mod 10 ^ 18 = 850338995742140055"
    by (simp only: rice_ids sum.inject)
  with dh(1,2) rice_ids show ?thesis by blast
qed

text \<open>
  C3. For every name, the store identifier and the product identifier derived from
  that same name are different numbers: the store identifier is the product
  identifier plus the positive offset.
\<close>

theorem store_id_differs_from_product_id:
  assumes "list_all scalar_value name"
  shows "\<exists>p s. product_id name = Inr p \<and> store_id name = Inr s \<and>
           s = p + 4261931000000000000 \<and> s \<noteq> p"
proof -
  from ids_of_scalar [OF assms] obtain p where
    "product_id name = Inr p" "store_id name = Inr (p + 4261931000000000000)" by blast
  then show ?thesis by simp
qed

theorem store_id_differs_from_product_id_witness:
  "\<exists>p s. product_id (ascii ''Basmati Rice'') = Inr p \<and>
         store_id (ascii ''Basmati Rice'') = Inr s \<and> s \<noteq> p"
proof -
  have "list_all scalar_value (ascii ''Basmati Rice'')"
    by (simp add: ascii_simps scalar_value_def)
  from store_id_differs_from_product_id [OF this] show ?thesis by blast
qed

text \<open>
  C10. For every pair of names, the store identifier of the first is strictly greater
  than the product identifier of the second: store identifiers lie in
  \<open>[4261931000000000000, 4261931000000000000 + 10^18)\<close>, product identifiers in
  \<open>[0, 10^18)\<close>, and \<open>10^18 < 4261931000000000000\<close>.
\<close>

theorem store_ids_above_product_ids:
  assumes "list_all scalar_value store_name" and "list_all scalar_value item_name"
  shows "\<exists>s p. store_id store_name = Inr s \<and> product_id item_name = Inr p \<and>
           4261931000000000000 \<le> s \<and> s < 4261931000000000000 + 10 ^ 18 \<and>
           0 \<le> p \<and> p < 10 ^ 18 \<and> (10::int) ^ 18 < 4261931000000000000 \<and> p < s"
proof -
  from ids_of_scalar [OF assms(1)] obtain q where
    s: "store_id store_name = Inr (q + 4261931000000000000)" "0 \<le> q" "q < 10 ^ 18"
    by blast
  from ids_of_scalar [OF assms(2)] obtain p where
    p: "product_id item_name = Inr p" "0 \<le> p" "p < 10 ^ 18" by blast
  from s p show ?thesis by simp
qed

theorem store_ids_above_product_ids_witness:
  "\<exists>s p. store_id (ascii ''Acme'') = Inr s \<and> product_id (ascii ''Basmati Rice'') = Inr p \<and>
         p < s"
proof -
  have "list_all scalar_value (ascii ''Acme'')"
    and "list_all scalar_value (ascii ''Basmati Rice'')"
    by (simp_all add: ascii_simps scalar_value_def)
  from store_ids_above_product_ids [OF this] show ?thesis by blast
qed

subsection \<open>The store synthesizer and the reading loop of the populator\<close>

lemma nonblank_names_simps:
  "nonblank_names col [] = []"
  "nonblank_names col (r # rows) =
     (if name_of col r \<noteq> [] then name_of col r # nonblank_names col rows
      else nonblank_names col rows)"
  "nonblank_names col (rows @ [r]) =
     (if name_of col r \<noteq> [] then nonblank_names col rows @ [name_of col r]
      else nonblank_names col rows)"
  by (simp_all add: nonblank_names_def)

lemma cell_strip_get:
  "cell_strip (get r col (Str [])) =
     (if has_text col r then Inr (name_of col r) else Inl AttributeError)"
  by (cases "get r col (Str [])") (simp_all add: has_text_def name_of_def)

lemma read_customers_eq:
  "read_customers acc rows =
     (if \<forall>r\<in>set rows. has_text (ascii ''Customer Name'') r
      then Inr (acc \<union> set (nonblank_names (ascii ''Customer Name'') rows))
      else Inl AttributeError)"
proof (induction rows arbitrary: acc)
  case Nil
  show ?case by (simp add: nonblank_names_simps)
next
  case (Cons r rows)
  show ?case
    by (simp add: cell_strip_get Cons.IH nonblank_names_simps)
qed

lemma store_value_scalar:
  "list_all scalar_value name \<Longrightarrow> \<exists>v. store_value name = Inr v"
  by (simp add: store_value_def store_id_def encode_scalar)

lemma store_values_scalar:
  "\<forall>n\<in>set names. list_all scalar_value n \<Longrightarrow>
     \<exists>vs. store_values names = Inr vs \<and> map Inr vs = map store_value names"
proof (induction names)
  case Nil
  show ?case by simp
next
  case (Cons n names)
  then obtain vs where vs: "store_values names = Inr vs" "map Inr vs = map store_value names"
    by auto
  from Cons.prems obtain v where v: "store_value n = Inr v"
    using store_value_scalar [of n] by auto
  from v vs show ?case by simp
qed

lemma create_stores_ok:
  assumes "\<forall>r\<in>set rows. has_text (ascii ''Customer Name'') r"
    and "\<forall>n\<in>set (nonblank_names (ascii ''Customer Name'') rows). list_all scalar_value n"
  shows "\<exists>vals. create_stores rows =
            Inr (card (set (nonblank_names (ascii ''Customer Name'') rows)), vals) \<and>
          map Inr vals = map store_value
            (sorted_list_of_set (set (nonblank_names (ascii ''Customer Name'') rows)))"
proof -
  let ?S = "set (nonblank_names (ascii ''Customer Name'') rows)"
  have rc: "read_customers {} rows = Inr ?S"
    using assms(1) by (simp add: read_customers_eq)
  have "\<forall>n\<in>set (sorted_list_of_set ?S). list_all scalar_value n"
    using assms(2) by simp
  from store_values_scalar [OF this] obtain vs where
    "store_values (sorted_list_of_set ?S) = Inr vs"
    "map Inr vs = map store_value (sorted_list_of_set ?S)" by blast
  with rc show ?thesis by (simp add: create_stores_def)
qed

lemma create_stores_abort:
  "\<not> (\<forall>r\<in>set rows. has_text (ascii ''Customer Name'') r) \<Longrightarrow>
     create_stores rows = Inl AttributeError"
  by (auto simp: create_stores_def read_customers_eq)

lemma firsts_simps:
  "firsts [] = []"
  "firsts (xs @ [x]) = (if x \<in> set xs then firsts xs else firsts xs @ [x])"
  by (simp_all add: firsts_def)

lemma set_firsts: "set (firsts xs) = set xs"
  by (simp add: firsts_def)

lemma distinct_firsts: "distinct (firsts xs)"
  by (simp add: firsts_def)

lemma length_firsts: "length (firsts xs) = card (set xs)"
  by (simp add: firsts_def length_remdups_card_conv)

lemma firsts_order:
  "\<forall>i<length (firsts xs). \<exists>m<length xs. xs ! m = firsts xs ! i \<and>
      (\<forall>m'<m. xs ! m' \<noteq> firsts xs ! i) \<and>
      (\<forall>j<i. \<exists>m'<m. xs ! m' = firsts xs ! j)"
proof (induction xs rule: rev_induct)
  case Nil
  show ?case by (simp add: firsts_simps)
next
  case (snoc x xs)
  let ?P = "\<lambda>ys ks i m. m < length ys \<and> ys ! m = ks ! i \<and> (\<forall>m'<m. ys ! m' \<noteq> ks ! i) \<and>
      (\<forall>j<i. \<exists>m'<m. ys ! m' = ks ! j)"
  have old: "\<exists>m. ?P (xs @ [x]) (firsts xs) i m" if i: "i < length (firsts xs)" for i
  proof -
    from snoc i obtain m where m: "m < length xs" "xs ! m = firsts xs ! i"
      "\<forall>m'<m. xs ! m' \<noteq> firsts xs ! i" "\<forall>j<i. \<exists>m'<m. xs ! m' = firsts xs ! j"
      by blast
    have eq: "(xs @ [x]) ! k = xs ! k" if "k \<le> m" for k
      using that m(1) by (simp add: nth_append)
    have "m < length (xs @ [x])" using m(1) by simp
    moreover have "(xs @ [x]) ! m = firsts xs ! i" using m(2) eq by simp
    moreover have "\<forall>m'<m. (xs @ [x]) ! m' \<noteq> firsts xs ! i" using m(3) eq by simp
    moreover have "\<forall>j<i. \<exists>m'<m. (xs @ [x]) ! m' = firsts xs ! j"
    proof (intro allI impI)
      fix j assume "j < i"
      with m(4) obtain m' where "m' < m" "xs ! m' = firsts xs ! j" by blast
      then show "\<exists>m'<m. (xs @ [x]) ! m' = firsts xs ! j"
        using eq [of m'] by (intro exI [of _ m']) simp
    qed
    ultimately show ?thesis by blast
  qed
  show ?case
  proof (cases "x \<in> set xs")
    case True
    then have "firsts (xs @ [x]) = firsts xs" by (simp add: firsts_simps)
    with old show ?thesis by auto
  next
    case False
    then have f: "firsts (xs @ [x]) = firsts xs @ [x]" by (simp add: firsts_simps)
    show ?thesis
    proof (intro allI impI)
      fix i assume i: "i < length (firsts (xs @ [x]))"
      show "\<exists>m<length (xs @ [x]). (xs @ [x]) ! m = firsts (xs @ [x]) ! i \<and>
          (\<forall>m'<m. (xs @ [x]) ! m' \<noteq> firsts (xs @ [x]) ! i) \<and>
          (\<forall>j<i. \<exists>m'<m. (xs @ [x]) ! m' = firsts (xs @ [x]) ! j)"
      proof (cases "i < length (firsts xs)")
        case True
        from old [OF True] obtain m where "?P (xs @ [x]) (firsts xs) i m" ..
        with True show ?thesis
          unfolding f by (intro exI [of _ m]) (auto simp: nth_append)
      next
        case False
        with i f have ie: "i = length (firsts xs)" by simp
        have a: "\<forall>m'<length xs. (xs @ [x]) ! m' \<noteq> x"
          using \<open>x \<notin> set xs\<close> by (auto simp: nth_append)
        have b: "\<exists>m'<length xs. (xs @ [x]) ! m' = firsts xs ! j" if "j < length (firsts xs)" for j
        proof -
          from that have "firsts xs ! j \<in> set xs"
            using set_firsts [of xs] nth_mem by blast
          then obtain m' where "m' < length xs" "xs ! m' = firsts xs ! j"
            by (auto simp: in_set_conv_nth)
          then show ?thesis by (auto simp: nth_append)
        qed
        show ?thesis
          unfolding f ie using a b
          by (intro exI [of _ "length xs"]) (auto simp: nth_append)
      qed
    qed
  qed
qed

lemma split_ws_nonempty:
  "cur \<noteq> [] \<or> (\<exists>c\<in>set s. \<not> isspace c) \<Longrightarrow> split_ws cur s \<noteq> []"
  by (induction s arbitrary: cur) auto

lemma strip_nonspace: "strip s \<noteq> [] \<Longrightarrow> \<exists>c\<in>set (strip s). \<not> isspace c"
proof -
  assume "strip s \<noteq> []"
  then have ne: "dropWhile isspace (rev (dropWhile isspace s)) \<noteq> []"
    by (simp add: strip_def)
  then have "\<not> isspace (hd (dropWhile isspace (rev (dropWhile isspace s))))"
    by (rule hd_dropWhile)
  moreover from ne have "hd (dropWhile isspace (rev (dropWhile isspace s))) \<in> set (strip s)"
    by (simp add: strip_def)
  ultimately show ?thesis by blast
qed

lemma name_of_nonspace:
  "name_of col r \<noteq> [] \<Longrightarrow> \<exists>c\<in>set (name_of col r). \<not> isspace c"
  by (cases "get r col (Str [])") (auto simp: name_of_def dest: strip_nonspace)

lemma brand_of_name:
  "name_of col r \<noteq> [] \<Longrightarrow> \<exists>b. brand_of (name_of col r) = Inr b"
proof -
  assume "name_of col r \<noteq> []"
  then have "split (name_of col r) \<noteq> []"
    using name_of_nonspace [of col r] split_ws_nonempty [of "[]" "name_of col r"]
    by (simp add: split_def)
  then show ?thesis
    by (cases "split (name_of col r)") (simp_all add: brand_of_def)
qed

lemma new_product_ok:
  assumes "name_of col r \<noteq> []" and "list_all scalar_value (name_of col r)"
  shows "\<exists>p. new_product pyfloat lower r' (name_of col r) = Inr p"
proof -
  from ids_of_scalar [OF assms(2)] obtain pid where "product_id (name_of col r) = Inr pid"
    by blast
  moreover from brand_of_name [OF assms(1)] obtain b where "brand_of (name_of col r) = Inr b"
    by blast
  ultimately show ?thesis by (simp add: new_product_def)
qed

lemma new_product_fields:
  "new_product pyfloat lower r n = Inr p \<Longrightarrow>
     p_name p = n \<and> p_price p = parse_price pyfloat r \<and> product_id n = Inr (p_id p) \<and>
     p_category p = category_of lower n \<and> brand_of n = Inr (p_brand p)"
  by (auto simp: new_product_def split: sum.splits)

lemma read_row_eq:
  "read_row pyfloat lower st r =
     (if \<not> has_text (ascii ''Item Name'') r then Inl AttributeError
      else if name_of (ascii ''Item Name'') r \<noteq> [] \<and>
              map_of (products st) (name_of (ascii ''Item Name'') r) = None
      then (case new_product pyfloat lower r (name_of (ascii ''Item Name'') r) of
              Inl e \<Rightarrow> Inl e
            | Inr p \<Rightarrow>
                Inr \<lparr>products = products st @ [(name_of (ascii ''Item Name'') r, p)],
                     invoice_items = invoice_items st @
                       (if collected r then [item_of pyfloat r (p_price p)] else [])\<rparr>)
      else if collected r
      then (case map_of (products st) (name_of (ascii ''Item Name'') r) of
              None \<Rightarrow> Inl KeyError
            | Some p \<Rightarrow>
                Inr \<lparr>products = products st,
                     invoice_items = invoice_items st @ [item_of pyfloat r (p_price p)]\<rparr>)
      else Inr st)"
  by (cases "get r (ascii ''Invoice ID'') (Str [])")
     (auto simp: read_row_def cell_strip_get collected_def invoice_id_of_def item_of_def
           split: sum.splits option.splits)

lemma read_rows_snoc:
  "read_rows pyfloat lower st (rows @ [r]) =
     (case read_rows pyfloat lower st rows of
        Inl e \<Rightarrow> Inl e
      | Inr st' \<Rightarrow> read_row pyfloat lower st' r)"
  by (induction rows arbitrary: st) (auto split: sum.splits)

lemma read_csv_snoc:
  assumes "read_csv pyfloat lower (rows @ [r]) = Inr st"
  obtains st0 where "read_csv pyfloat lower rows = Inr st0"
    and "read_row pyfloat lower st0 r = Inr st"
  using assms by (auto simp: read_csv_def read_rows_snoc split: sum.splits)

lemma read_row_Inr_cases:
  assumes "read_row pyfloat lower st0 r = Inr st"
  obtains (new) p where "has_text (ascii ''Item Name'') r"
      "name_of (ascii ''Item Name'') r \<noteq> []"
      "map_of (products st0) (name_of (ascii ''Item Name'') r) = None"
      "new_product pyfloat lower r (name_of (ascii ''Item Name'') r) = Inr p"
      "products st = products st0 @ [(name_of (ascii ''Item Name'') r, p)]"
      "invoice_items st = invoice_items st0 @
         (if collected r then [item_of pyfloat r (p_price p)] else [])"
  | (old) p where "has_text (ascii ''Item Name'') r" "collected r"
      "map_of (products st0) (name_of (ascii ''Item Name'') r) = Some p"
      "products st = products st0"
      "invoice_items st = invoice_items st0 @ [item_of pyfloat r (p_price p)]"
  | (skip) "has_text (ascii ''Item Name'') r" "\<not> collected r"
      "name_of (ascii ''Item Name'') r = [] \<or>
       map_of (products st0) (name_of (ascii ''Item Name'') r) \<noteq> None"
      "st = st0"
proof -
  let ?n = "name_of (ascii ''Item Name'') r"
  from assms have ht: "has_text (ascii ''Item Name'') r"
    by (simp add: read_row_eq split: if_splits)
  show thesis
  proof (cases "?n \<noteq> [] \<and> map_of (products st0) ?n = None")
    case True
    with assms ht obtain p where p: "new_product pyfloat lower r ?n = Inr p"
      "st = \<lparr>products = products st0 @ [(?n, p)],
             invoice_items = invoice_items st0 @
               (if collected r then [item_of pyfloat r (p_price p)] else [])\<rparr>"
      by (auto simp: read_row_eq split: sum.splits)
    from p(2) have "products st = products st0 @ [(?n, p)]"
      "invoice_items st = invoice_items st0 @
         (if collected r then [item_of pyfloat r (p_price p)] else [])" by simp_all
    with True ht p(1) show ?thesis by (intro new [of p]) simp_all
  next
    case False
    show ?thesis
    proof (cases "collected r")
      case True
      with False assms ht obtain p where p: "map_of (products st0) ?n = Some p"
        "st = \<lparr>products = products st0,
               invoice_items = invoice_items st0 @ [item_of pyfloat r (p_price p)]\<rparr>"
        by (auto simp: read_row_eq split: option.splits if_splits)
      from p(2) have "products st = products st0"
        "invoice_items st = invoice_items st0 @ [item_of pyfloat r (p_price p)]" by simp_all
      with True ht p(1) show ?thesis by (intro old [of p]) simp_all
    next
      case nc: False
      with False assms ht have "st = st0"
        by (auto simp: read_row_eq split: if_splits)
      with False nc ht show ?thesis by (intro skip) auto
    qed
  qed
qed

lemma read_csv_keys:
  "read_csv pyfloat lower rows = Inr st \<Longrightarrow>
     (\<forall>r\<in>set rows. has_text (ascii ''Item Name'') r) \<and>
     map fst (products st) = firsts (nonblank_names (ascii ''Item Name'') rows)"
proof (induction rows arbitrary: st rule: rev_induct)
  case Nil
  then show ?case by (auto simp: read_csv_def nonblank_names_simps firsts_simps)
next
  case (snoc r rows)
  let ?n = "name_of (ascii ''Item Name'') r"
  let ?names = "nonblank_names (ascii ''Item Name'') rows"
  from snoc.prems obtain st0 where st0: "read_csv pyfloat lower rows = Inr st0"
    and step: "read_row pyfloat lower st0 r = Inr st" by (rule read_csv_snoc)
  from snoc.IH [OF st0] have ht: "\<forall>r\<in>set rows. has_text (ascii ''Item Name'') r"
    and keys: "map fst (products st0) = firsts ?names" by simp_all
  have dom: "map_of (products st0) k = None \<longleftrightarrow> k \<notin> set ?names" for k
  proof -
    have "map_of (products st0) k = None \<longleftrightarrow> k \<notin> set (map fst (products st0))"
      by (simp add: map_of_eq_None_iff)
    then show ?thesis by (simp add: keys set_firsts)
  qed
  from step show ?case
  proof (cases rule: read_row_Inr_cases)
    case (new p)
    from new(3) have "?n \<notin> set ?names" by (simp add: dom)
    with new ht keys show ?thesis
      by (simp add: nonblank_names_simps firsts_simps)
  next
    case (old p)
    from old(3) have "?n \<in> set ?names" using dom [of ?n] by auto
    moreover from old(2) have "?n \<noteq> []" by (simp add: collected_def)
    ultimately show ?thesis using old ht keys
      by (simp add: nonblank_names_simps firsts_simps)
  next
    case skip
    have "firsts (nonblank_names (ascii ''Item Name'') (rows @ [r])) = firsts ?names"
    proof (cases "?n = []")
      case True
      then show ?thesis by (simp add: nonblank_names_simps)
    next
      case False
      with skip(3) have "?n \<in> set ?names" using dom [of ?n] by auto
      with False show ?thesis by (simp add: nonblank_names_simps firsts_simps)
    qed
    with skip ht keys show ?thesis by simp
  qed
qed

lemma name_in_nonblank:
  "j < length rows \<Longrightarrow> name_of col (rows ! j) \<noteq> [] \<Longrightarrow>
     name_of col (rows ! j) \<in> set (nonblank_names col rows)"
  by (auto simp: nonblank_names_def)

lemma read_csv_first_row:
  "read_csv pyfloat lower rows = Inr st \<Longrightarrow> (n, p) \<in> set (products st) \<Longrightarrow>
     \<exists>i<length rows. name_of (ascii ''Item Name'') (rows ! i) = n \<and>
        (\<forall>j<i. name_of (ascii ''Item Name'') (rows ! j) \<noteq> n) \<and>
        new_product pyfloat lower (rows ! i) n = Inr p"
proof (induction rows arbitrary: st rule: rev_induct)
  case Nil
  then show ?case by (auto simp: read_csv_def)
next
  case (snoc r rows)
  let ?n = "name_of (ascii ''Item Name'') r"
  let ?names = "nonblank_names (ascii ''Item Name'') rows"
  from snoc.prems(1) obtain st0 where st0: "read_csv pyfloat lower rows = Inr st0"
    and step: "read_row pyfloat lower st0 r = Inr st" by (rule read_csv_snoc)
  have lift: ?case if mem: "(n, p) \<in> set (products st0)"
  proof -
    from snoc.IH [OF st0 mem] obtain i where i: "i < length rows"
      "name_of (ascii ''Item Name'') (rows ! i) = n"
      "\<forall>j<i. name_of (ascii ''Item Name'') (rows ! j) \<noteq> n"
      "new_product pyfloat lower (rows ! i) n = Inr p" by blast
    have eq: "(rows @ [r]) ! k = rows ! k" if "k \<le> i" for k
      using that i(1) by (simp add: nth_append)
    have "i < length (rows @ [r])" using i(1) by simp
    moreover have "name_of (ascii ''Item Name'') ((rows @ [r]) ! i) = n"
      using i(2) eq by simp
    moreover have "\<forall>j<i. name_of (ascii ''Item Name'') ((rows @ [r]) ! j) \<noteq> n"
      using i(3) eq by simp
    moreover have "new_product pyfloat lower ((rows @ [r]) ! i) n = Inr p"
      using i(4) eq by simp
    ultimately show ?thesis by blast
  qed
  from step show ?case
  proof (cases rule: read_row_Inr_cases)
    case (new p')
    show ?thesis
    proof (cases "(n, p) \<in> set (products st0)")
      case True
      then show ?thesis by (rule lift)
    next
      case False
      with snoc.prems(2) new(5) have np: "n = ?n" "p = p'" by auto
      from read_csv_keys [OF st0] have "map fst (products st0) = firsts ?names" by simp
      then have "set (map fst (products st0)) = set ?names" by (simp add: set_firsts)
      with new(3) have notin: "?n \<notin> set ?names"
        by (metis map_of_eq_None_iff set_map)
      have "\<forall>j<length rows. name_of (ascii ''Item Name'') ((rows @ [r]) ! j) \<noteq> ?n"
      proof (intro allI impI)
        fix j assume j: "j < length rows"
        show "name_of (ascii ''Item Name'') ((rows @ [r]) ! j) \<noteq> ?n"
        proof
          assume "name_of (ascii ''Item Name'') ((rows @ [r]) ! j) = ?n"
          with j have e: "name_of (ascii ''Item Name'') (rows ! j) = ?n"
            by (simp add: nth_append)
          with new(2) j have "?n \<in> set ?names"
            using name_in_nonblank [of j rows "ascii ''Item Name''"] by simp
          with notin show False by simp
        qed
      qed
      with new(4) np show ?thesis
        by (intro exI [of _ "length rows"]) simp
    qed
  next
    case (old p')
    with snoc.prems(2) show ?thesis by (intro lift) simp
  next
    case skip
    with snoc.prems(2) show ?thesis by (intro lift) simp
  qed
qed

lemma read_csv_items:
  "read_csv pyfloat lower rows = Inr st \<Longrightarrow>
     invoice_items st =
       map (\<lambda>r. item_of pyfloat r
                  (p_price (the (map_of (products st) (name_of (ascii ''Item Name'') r)))))
         (filter collected rows)"
proof (induction rows arbitrary: st rule: rev_induct)
  case Nil
  then show ?case by (auto simp: read_csv_def)
next
  case (snoc r rows)
  let ?n = "name_of (ascii ''Item Name'') r"
  let ?names = "nonblank_names (ascii ''Item Name'') rows"
  from snoc.prems(1) obtain st0 where st0: "read_csv pyfloat lower rows = Inr st0"
    and step: "read_row pyfloat lower st0 r = Inr st" by (rule read_csv_snoc)
  note IH = snoc.IH [OF st0]
  from read_csv_keys [OF st0] have "map fst (products st0) = firsts ?names" by simp
  then have keys: "set (map fst (products st0)) = set ?names" by (simp add: set_firsts)
  from step show ?case
  proof (cases rule: read_row_Inr_cases)
    case (new p)
    have same: "map_of (products st) (name_of (ascii ''Item Name'') r') =
                map_of (products st0) (name_of (ascii ''Item Name'') r')"
      if "r' \<in> set (filter collected rows)" for r'
    proof -
      from that have "name_of (ascii ''Item Name'') r' \<in> set ?names"
        by (auto simp: nonblank_names_def collected_def)
      with keys have "name_of (ascii ''Item Name'') r' \<in> fst ` set (products st0)" by simp
      then obtain q where "map_of (products st0) (name_of (ascii ''Item Name'') r') = Some q"
        by (metis map_of_eq_None_iff not_Some_eq)
      then show ?thesis by (simp add: new(5) map_add_def)
    qed
    have "map_of (products st) ?n = Some p"
      by (simp add: new(5) new(3) map_add_def)
    with new(6) IH same show ?thesis by (simp cong: map_cong)
  next
    case (old p)
    with IH show ?thesis by simp
  next
    case skip
    with IH show ?thesis by simp
  qed
qed

lemma read_csv_ok:
  "\<forall>r\<in>set rows. has_text (ascii ''Item Name'') r \<Longrightarrow>
   \<forall>n\<in>set (nonblank_names (ascii ''Item Name'') rows). list_all scalar_value n \<Longrightarrow>
     \<exists>st. read_csv pyfloat lower rows = Inr st"
proof (induction rows rule: rev_induct)
  case Nil
  show ?case by (simp add: read_csv_def)
next
  case (snoc r rows)
  let ?n = "name_of (ascii ''Item Name'') r"
  from snoc obtain st0 where st0: "read_csv pyfloat lower rows = Inr st0"
    by (auto simp: nonblank_names_simps split: if_splits)
  from snoc.prems(1) have ht: "has_text (ascii ''Item Name'') r" by simp
  have "\<exists>st. read_row pyfloat lower st0 r = Inr st"
  proof (cases "?n \<noteq> [] \<and> map_of (products st0) ?n = None")
    case True
    with snoc.prems(2) have "list_all scalar_value ?n"
      by (simp add: nonblank_names_simps)
    with True obtain p where "new_product pyfloat lower r ?n = Inr p"
      using new_product_ok [of "ascii ''Item Name''" r pyfloat lower r] by blast
    with True ht show ?thesis by (simp add: read_row_eq)
  next
    case False
    with ht show ?thesis by (auto simp: read_row_eq collected_def)
  qed
  with st0 show ?case by (simp add: read_csv_def read_rows_snoc)
qed

lemma csv_row_simps:
  "csv_row [] = Map.empty"
  "csv_row ((k, v) # kvs) = (csv_row kvs)(ascii k \<mapsto> v)"
  by (simp_all add: csv_row_def)

lemma store_values_Inr:
  "store_values names = Inr vs \<Longrightarrow> map Inr vs = map store_value names"
  by (induction names arbitrary: vs) (auto split: sum.splits)

lemma create_stores_Inr:
  assumes "create_stores rows = Inr (k, vals)"
  shows "(\<forall>r\<in>set rows. has_text (ascii ''Customer Name'') r) \<and>
         k = card (set (nonblank_names (ascii ''Customer Name'') rows)) \<and>
         map Inr vals = map store_value
           (sorted_list_of_set (set (nonblank_names (ascii ''Customer Name'') rows)))"
proof -
  have ht: "\<forall>r\<in>set rows. has_text (ascii ''Customer Name'') r"
    using assms create_stores_abort [of rows] by auto
  then have "read_customers {} rows = Inr (set (nonblank_names (ascii ''Customer Name'') rows))"
    by (simp add: read_customers_eq)
  with assms ht show ?thesis
    by (auto simp: create_stores_def split: sum.splits dest: store_values_Inr)
qed

lemma read_csv_abort:
  "\<not> (\<forall>r\<in>set rows. has_text (ascii ''Item Name'') r) \<Longrightarrow>
     \<exists>e. read_csv pyfloat lower rows = Inl e"
  using read_csv_keys [of pyfloat lower rows]
  by (cases "read_csv pyfloat lower rows") auto

lemma one_entry:
  "distinct (map fst ps) \<Longrightarrow> n \<in> set (map fst ps) \<Longrightarrow>
     length (filter (\<lambda>e. fst e = n) ps) = 1"
proof (induction ps)
  case Nil
  then show ?case by simp
next
  case (Cons e ps)
  show ?case
  proof (cases "fst e = n")
    case True
    with Cons.prems(1) have "n \<notin> fst ` set ps" by simp
    then have "\<forall>x\<in>set ps. fst x \<noteq> n" by blast
    then have "filter (\<lambda>e. fst e = n) ps = []" by (simp add: filter_empty_conv)
    with True show ?thesis by simp
  next
    case False
    with Cons show ?thesis by simp
  qed
qed

lemma quantity_total_cases:
  "quantity_total pyfloat row =
     (case (float_of pyfloat (get row (ascii ''Quantity'') (Str (ascii ''1''))),
            float_currency pyfloat (get row (ascii ''Total'') (Str (ascii ''0'')))) of
        (Inr q, Inr t) \<Rightarrow> (PyFloat q, PyFloat t)
      | _ \<Rightarrow> (PyInt 1, PyInt 0))"
  by (simp add: quantity_total_def split: sum.splits)

lemma float_currency_Str:
  "float_currency pyfloat (Str s) =
     (case pyfloat (filter (\<lambda>c. c \<noteq> of_char CHR ''$'' \<and> c \<noteq> of_char CHR '','') s) of
        None \<Rightarrow> Inl ValueError | Some v \<Rightarrow> Inr v)"
proof -
  have "replace b [] (replace a [] s) = filter (\<lambda>c. c \<noteq> a \<and> c \<noteq> b) s" for a b
    by (induction s) (simp_all add: replace_def)
  then show ?thesis by (simp add: float_currency_def)
qed

lemma rows_short_item_abort:
  "read_csv pyfloat lower rows_short_item = Inl AttributeError"
proof -
  let ?r1 = "csv_row [(''Invoice ID'', Str (ascii ''INV-1'')),
      (''Item Name'', Str (ascii ''Basmati Rice'')), (''Item Price'', Str (ascii ''$10.50''))]"
  let ?r2 = "csv_row [(''Invoice ID'', Str (ascii ''INV-2'')),
      (''Item Name'', Str (ascii ''Basmati Rice'')), (''Item Price'', Str (ascii ''$12.00''))]"
  let ?r3 = "csv_row [(''Invoice ID'', Str (ascii ''INV-3'')), (''Item Name'', PyNone),
      (''Item Price'', PyNone)]"
  have "\<forall>r\<in>set [?r1, ?r2]. has_text (ascii ''Item Name'') r"
    by (simp add: has_text_def csv_row_simps get_def ascii_simps)
  moreover have "\<forall>n\<in>set (nonblank_names (ascii ''Item Name'') [?r1, ?r2]).
      list_all scalar_value n"
    by (simp add: nonblank_names_def name_of_def csv_row_simps get_def ascii_simps strip_def
          isspace_def scalar_value_def)
  ultimately obtain st0 where st0: "read_csv pyfloat lower [?r1, ?r2] = Inr st0"
    using read_csv_ok [of "[?r1, ?r2]" pyfloat lower] by blast
  have "\<not> has_text (ascii ''Item Name'') ?r3"
    by (simp add: has_text_def csv_row_simps get_def ascii_simps)
  then have "read_row pyfloat lower st0 ?r3 = Inl AttributeError"
    by (simp add: read_row_eq)
  with st0 have "read_rows pyfloat lower \<lparr>products = [], invoice_items = []\<rparr>
      ([?r1, ?r2] @ [?r3]) = Inl AttributeError"
    unfolding read_csv_def by (simp only: read_rows_snoc sum.case)
  then show ?thesis
    by (simp add: read_csv_def rows_short_item_def)
qed

text \<open>
  C4 (amended). For every CSV input in which no row has \<open>None\<close> under
  \<open>Customer Name\<close>, the store synthesizer emits as many rows as there are distinct
  non-blank stripped customer names, and prints that number; for every input in which
  no row has \<open>None\<close> under \<open>Item Name\<close>, the populator builds as many product entries
  as there are distinct non-blank stripped item names. On an input with such a
  \<open>None\<close> the synthesizer stops with \<open>AttributeError\<close> before it emits anything, and
  the populator stops with an exception.
\<close>

theorem dedup_counts:
  "((\<forall>r\<in>set rows. has_text (ascii ''Customer Name'') r) \<and>
    (\<forall>n\<in>set (nonblank_names (ascii ''Customer Name'') rows). list_all scalar_value n) \<longrightarrow>
      (\<exists>vals. create_stores rows =
                 Inr (card (set (nonblank_names (ascii ''Customer Name'') rows)), vals) \<and>
               length vals = card (set (nonblank_names (ascii ''Customer Name'') rows)))) \<and>
   ((\<forall>r\<in>set rows. has_text (ascii ''Item Name'') r) \<and>
    (\<forall>n\<in>set (nonblank_names (ascii ''Item Name'') rows). list_all scalar_value n) \<longrightarrow>
      (\<exists>st. read_csv pyfloat lower rows = Inr st \<and>
            length (products st) = card (set (nonblank_names (ascii ''Item Name'') rows)))) \<and>
   (\<not> (\<forall>r\<in>set rows. has_text (ascii ''Customer Name'') r) \<longrightarrow>
      create_stores rows = Inl AttributeError) \<and>
   (\<not> (\<forall>r\<in>set rows. has_text (ascii ''Item Name'') r) \<longrightarrow>
      (\<exists>e. read_csv pyfloat lower rows = Inl e))"
proof (intro conjI impI)
  let ?S = "set (nonblank_names (ascii ''Customer Name'') rows)"
  assume "(\<forall>r\<in>set rows. has_text (ascii ''Customer Name'') r) \<and>
    (\<forall>n\<in>set (nonblank_names (ascii ''Customer Name'') rows). list_all scalar_value n)"
  then obtain vals where v: "create_stores rows = Inr (card ?S, vals)"
    "map Inr vals = map store_value (sorted_list_of_set ?S)"
    using create_stores_ok [of rows] by blast
  from v(2) have "length (map Inr vals :: (pyerr + store_value) list) =
      length (map store_value (sorted_list_of_set ?S))" by simp
  then have "length vals = card ?S" by simp
  with v(1) show "\<exists>vals. create_stores rows = Inr (card ?S, vals) \<and> length vals = card ?S"
    by blast
next
  let ?names = "nonblank_names (ascii ''Item Name'') rows"
  assume "(\<forall>r\<in>set rows. has_text (ascii ''Item Name'') r) \<and>
    (\<forall>n\<in>set ?names. list_all scalar_value n)"
  then obtain st where st: "read_csv pyfloat lower rows = Inr st"
    using read_csv_ok [of rows pyfloat lower] by blast
  from read_csv_keys [OF st] have "map fst (products st) = firsts ?names" by simp
  then have "length (map fst (products st)) = length (firsts ?names)" by simp
  then have "length (products st) = card (set ?names)" by (simp add: length_firsts)
  with st show "\<exists>st. read_csv pyfloat lower rows = Inr st \<and>
      length (products st) = card (set ?names)" by blast
next
  assume "\<not> (\<forall>r\<in>set rows. has_text (ascii ''Customer Name'') r)"
  then show "create_stores rows = Inl AttributeError" by (rule create_stores_abort)
next
  assume "\<not> (\<forall>r\<in>set rows. has_text (ascii ''Item Name'') r)"
  then show "\<exists>e. read_csv pyfloat lower rows = Inl e" by (rule read_csv_abort)
qed

lemma rows_two_customers_names:
  "nonblank_names (ascii ''Customer Name'') rows_two_customers =
     [ascii ''Zed Foods'', ascii ''Acme'', ascii ''Zed Foods'']"
  "nonblank_names (ascii ''Item Name'') rows_two_customers =
     [ascii ''Basmati Rice'', ascii ''Toor Dal'', ascii ''Basmati Rice'']"
  "\<forall>r\<in>set rows_two_customers. has_text (ascii ''Customer Name'') r"
  "\<forall>r\<in>set rows_two_customers. has_text (ascii ''Item Name'') r"
  by (simp_all add: rows_two_customers_def nonblank_names_def name_of_def has_text_def
        csv_row_simps get_def ascii_simps strip_def isspace_def)

theorem dedup_counts_witness:
  "(\<exists>vals. create_stores rows_two_customers = Inr (2, vals) \<and> length vals = 2) \<and>
   (\<exists>st. read_csv float_decimal (\<lambda>s. s) rows_two_customers = Inr st \<and>
         length (products st) = 2)"
proof -
  have a: "\<forall>n\<in>set (nonblank_names (ascii ''Customer Name'') rows_two_customers).
             list_all scalar_value n"
    and b: "\<forall>n\<in>set (nonblank_names (ascii ''Item Name'') rows_two_customers).
             list_all scalar_value n"
    by (simp_all only: rows_two_customers_names) (simp_all add: ascii_simps scalar_value_def)
  have c: "card (set (nonblank_names (ascii ''Customer Name'') rows_two_customers)) = 2"
    and d: "card (set (nonblank_names (ascii ''Item Name'') rows_two_customers)) = 2"
    by (simp_all only: rows_two_customers_names) (simp_all add: ascii_simps card_insert_if)
  from dedup_counts [of rows_two_customers float_decimal "\<lambda>s. s"] a b
    rows_two_customers_names(3,4)
  show ?thesis unfolding c d by blast
qed

text \<open>
  Stated for every CSV input, the counts fail on files with a short record: there is
  one distinct non-blank customer name and no row is synthesized; there is one
  distinct non-blank item name and the populator stops.
\<close>

theorem dedup_counts_counterexample:
  "create_stores rows_short_customer = Inl AttributeError \<and>
   card (set (nonblank_names (ascii ''Customer Name'') rows_short_customer)) = 1 \<and>
   read_csv float_decimal (\<lambda>s. s) rows_short_item = Inl AttributeError \<and>
   card (set (nonblank_names (ascii ''Item Name'') rows_short_item)) = 1"
proof -
  have "nonblank_names (ascii ''Item Name'') rows_short_item =
      [ascii ''Basmati Rice'', ascii ''Basmati Rice'']"
    by (simp add: rows_short_item_def nonblank_names_def name_of_def
          csv_row_simps get_def ascii_simps strip_def isspace_def)
  then have items: "card (set (nonblank_names (ascii ''Item Name'') rows_short_item)) = 1"
    by simp
  have "\<not> (\<forall>r\<in>set rows_short_customer. has_text (ascii ''Customer Name'') r)"
    by (simp add: rows_short_customer_def has_text_def csv_row_simps get_def ascii_simps)
  then have "create_stores rows_short_customer = Inl AttributeError"
    by (rule create_stores_abort)
  moreover have "nonblank_names (ascii ''Customer Name'') rows_short_customer = [ascii ''Acme'']"
    by (simp add: rows_short_customer_def nonblank_names_def name_of_def
          csv_row_simps get_def ascii_simps strip_def isspace_def)
  ultimately show ?thesis using items rows_short_item_abort [of float_decimal "\<lambda>s. s"]
    by simp
qed

text \<open>
  C5 (amended). For every CSV input in which no row has \<open>None\<close> under \<open>Item Name\<close>,
  and every non-blank stripped item name \<open>n\<close> of it (in particular one that several
  rows share with different prices): exactly one product entry has the key \<open>n\<close>; its
  price is the one parsed from the first row of the file with that name; its id,
  category and brand are functions of the name.
\<close>

theorem first_row_wins:
  assumes "\<forall>r\<in>set rows. has_text (ascii ''Item Name'') r"
    and "\<forall>n\<in>set (nonblank_names (ascii ''Item Name'') rows). list_all scalar_value n"
    and "n \<in> set (nonblank_names (ascii ''Item Name'') rows)"
  shows "\<exists>st p i. read_csv pyfloat lower rows = Inr st \<and>
           length (filter (\<lambda>e. fst e = n) (products st)) = 1 \<and>
           map_of (products st) n = Some p \<and>
           i < length rows \<and> name_of (ascii ''Item Name'') (rows ! i) = n \<and>
           (\<forall>j<i. name_of (ascii ''Item Name'') (rows ! j) \<noteq> n) \<and>
           p_name p = n \<and> p_price p = parse_price pyfloat (rows ! i) \<and>
           product_id n = Inr (p_id p) \<and> p_category p = category_of lower n \<and>
           brand_of n = Inr (p_brand p)"
proof -
  let ?names = "nonblank_names (ascii ''Item Name'') rows"
  from read_csv_ok [OF assms(1,2)] obtain st where st: "read_csv pyfloat lower rows = Inr st"
    by blast
  from read_csv_keys [OF st] have keys: "map fst (products st) = firsts ?names" by simp
  then have dist: "distinct (map fst (products st))" by (simp add: distinct_firsts)
  from keys assms(3) have mem: "n \<in> set (map fst (products st))" by (simp add: set_firsts)
  from one_entry [OF dist mem] have one: "length (filter (\<lambda>e. fst e = n) (products st)) = 1" .
  from mem obtain p where p: "(n, p) \<in> set (products st)" by auto
  with dist have look: "map_of (products st) n = Some p" by simp
  from read_csv_first_row [OF st p] obtain i where i: "i < length rows"
    "name_of (ascii ''Item Name'') (rows ! i) = n"
    "\<forall>j<i. name_of (ascii ''Item Name'') (rows ! j) \<noteq> n"
    "new_product pyfloat lower (rows ! i) n = Inr p" by blast
  from new_product_fields [OF i(4)] st one look i(1-3) show ?thesis by blast
qed

theorem first_row_wins_witness:
  "\<exists>st p. read_csv float_decimal (\<lambda>s. s) rows_two_customers = Inr st \<and>
      length (filter (\<lambda>e. fst e = ascii ''Basmati Rice'') (products st)) = 1 \<and>
      map_of (products st) (ascii ''Basmati Rice'') = Some p \<and> p_price p = 10.5"
proof -
  let ?n = "ascii ''Basmati Rice''"
  have b: "\<forall>n\<in>set (nonblank_names (ascii ''Item Name'') rows_two_customers).
             list_all scalar_value n"
    and c: "?n \<in> set (nonblank_names (ascii ''Item Name'') rows_two_customers)"
    by (simp_all only: rows_two_customers_names) (simp_all add: ascii_simps scalar_value_def)
  from first_row_wins [OF rows_two_customers_names(4) b c, of float_decimal "\<lambda>s. s"]
  obtain st p i where r: "read_csv float_decimal (\<lambda>s. s) rows_two_customers = Inr st"
    "length (filter (\<lambda>e. fst e = ?n) (products st)) = 1"
    "map_of (products st) ?n = Some p"
    "\<forall>j<i. name_of (ascii ''Item Name'') (rows_two_customers ! j) \<noteq> ?n"
    "p_price p = parse_price float_decimal (rows_two_customers ! i)" by blast
  have "name_of (ascii ''Item Name'') (rows_two_customers ! 0) = ?n"
    by (simp add: rows_two_customers_def name_of_def csv_row_simps get_def ascii_simps
          strip_def isspace_def)
  with r(4) have "\<not> 0 < i" by blast
  then have "i = 0" by simp
  moreover have "parse_price float_decimal (rows_two_customers ! 0) = 10.5"
    by (simp add: rows_two_customers_def parse_price_def float_currency_def replace_def
          csv_row_simps get_def ascii_simps float_decimal_def digits_value_def)
  ultimately have "p_price p = 10.5" using r(5) by simp
  with r(1-3) show ?thesis by blast
qed

text \<open>
  Stated for every CSV input and every shared name, the property fails on two rows
  that share a blank item name (no entry is created), and on a file where a short
  record follows the rows that share a name (the script stops with
  \<open>AttributeError\<close>).
\<close>

theorem first_row_wins_counterexample:
  "read_csv float_decimal (\<lambda>s. s) rows_blank_items = Inr \<lparr>products = [], invoice_items = []\<rparr> \<and>
   read_csv float_decimal (\<lambda>s. s) rows_short_item = Inl AttributeError"
proof
  show "read_csv float_decimal (\<lambda>s. s) rows_blank_items =
          Inr \<lparr>products = [], invoice_items = []\<rparr>"
    by (simp add: read_csv_def rows_blank_items_def read_row_eq has_text_def name_of_def
          collected_def csv_row_simps get_def ascii_simps strip_def isspace_def)
next
  show "read_csv float_decimal (\<lambda>s. s) rows_short_item = Inl AttributeError"
    by (rule rows_short_item_abort)
qed

lemma float_decimal_examples:
  "float_decimal (ascii ''1234.50'') = Some 1234.5"
  "float_decimal (ascii ''N/A'') = None"
  "float_decimal (ascii ''abc'') = None"
  "float_decimal (ascii ''5'') = Some 5"
  by (simp_all add: float_decimal_def digits_value_def ascii_simps)

text \<open>
  C6. The price is \<open>float\<close> of the \<open>Item Price\<close> text with every \<open>$\<close> and \<open>,\<close>
  removed, and \<open>0.0\<close> when the text is missing or \<open>float\<close> refuses it:
  \<open>"$1,234.50"\<close> gives \<open>float("1234.50")\<close>, and \<open>"N/A"\<close>, which \<open>float\<close> refuses, gives
  \<open>0.0\<close>.
\<close>

theorem currency_parsing:
  "parse_price pyfloat row =
     (case get row (ascii ''Item Price'') (Str (ascii ''0'')) of
        PyNone \<Rightarrow> 0
      | Str s \<Rightarrow>
          (case pyfloat (filter (\<lambda>c. c \<noteq> of_char CHR ''$'' \<and> c \<noteq> of_char CHR '','') s) of
             None \<Rightarrow> 0
           | Some v \<Rightarrow> v)) \<and>
   (row (ascii ''Item Price'') = Some (Str (ascii ''$1,234.50'')) \<and>
    pyfloat (ascii ''1234.50'') = Some v \<longrightarrow> parse_price pyfloat row = v) \<and>
   (row (ascii ''Item Price'') = Some (Str (ascii ''N/A'')) \<and>
    pyfloat (ascii ''N/A'') = None \<longrightarrow> parse_price pyfloat row = 0)"
proof (intro conjI impI)
  show "parse_price pyfloat row =
     (case get row (ascii ''Item Price'') (Str (ascii ''0'')) of
        PyNone \<Rightarrow> 0
      | Str s \<Rightarrow>
          (case pyfloat (filter (\<lambda>c. c \<noteq> of_char CHR ''$'' \<and> c \<noteq> of_char CHR '','') s) of
             None \<Rightarrow> 0
           | Some v \<Rightarrow> v))"
  proof (cases "get row (ascii ''Item Price'') (Str (ascii ''0''))")
    case PyNone
    then show ?thesis by (simp add: parse_price_def float_currency_def)
  next
    case (Str s)
    then show ?thesis
      by (simp add: parse_price_def float_currency_Str split: option.splits)
  qed
next
  assume "row (ascii ''Item Price'') = Some (Str (ascii ''$1,234.50'')) \<and>
    pyfloat (ascii ''1234.50'') = Some v"
  moreover have "filter (\<lambda>c. c \<noteq> of_char CHR ''$'' \<and> c \<noteq> of_char CHR '','')
      (ascii ''$1,234.50'') = ascii ''1234.50''"
    by (simp add: ascii_simps)
  ultimately show "parse_price pyfloat row = v"
    by (simp add: parse_price_def float_currency_Str get_def)
next
  assume "row (ascii ''Item Price'') = Some (Str (ascii ''N/A'')) \<and>
    pyfloat (ascii ''N/A'') = None"
  moreover have "filter (\<lambda>c. c \<noteq> of_char CHR ''$'' \<and> c \<noteq> of_char CHR '','')
      (ascii ''N/A'') = ascii ''N/A''"
    by (simp add: ascii_simps)
  ultimately show "parse_price pyfloat row = 0"
    by (simp add: parse_price_def float_currency_Str get_def)
qed

theorem currency_parsing_witness:
  "parse_price float_decimal (csv_row [(''Item Price'', Str (ascii ''$1,234.50''))]) = 1234.5 \<and>
   parse_price float_decimal (csv_row [(''Item Price'', Str (ascii ''N/A''))]) = 0"
  using currency_parsing [of float_decimal
      "csv_row [(''Item Price'', Str (ascii ''$1,234.50''))]" "1234.5"]
    currency_parsing [of float_decimal "csv_row [(''Item Price'', Str (ascii ''N/A''))]"]
    float_decimal_examples(1,2)
  by (simp add: csv_row_simps)

text \<open>
  C7 (amended). Whatever the \<open>Quantity\<close>, \<open>Total\<close> and \<open>Item Price\<close> cells hold, the
  loop ends normally as soon as no \<open>Item Name\<close> cell is \<open>None\<close>; it records one item
  for every collected row, in file order; the item carries both parsed numbers when
  both \<open>Quantity\<close> and \<open>Total\<close> parse, and otherwise the pair of defaults: quantity
  \<open>1\<close> and total \<open>0\<close>.
\<close>

theorem numeric_fallback:
  assumes "\<forall>r\<in>set rows. has_text (ascii ''Item Name'') r"
    and "\<forall>n\<in>set (nonblank_names (ascii ''Item Name'') rows). list_all scalar_value n"
  shows "\<exists>st. read_csv pyfloat lower rows = Inr st \<and>
           map (\<lambda>it. (ii_invoice_id it, ii_product_name it, ii_quantity it, ii_total it))
             (invoice_items st) =
           map (\<lambda>r. (invoice_id_of r, name_of (ascii ''Item Name'') r,
                      fst (quantity_total pyfloat r), snd (quantity_total pyfloat r)))
             (filter collected rows) \<and>
           (\<forall>r. quantity_total pyfloat r =
              (case (float_of pyfloat (get r (ascii ''Quantity'') (Str (ascii ''1''))),
                     float_currency pyfloat (get r (ascii ''Total'') (Str (ascii ''0'')))) of
                 (Inr q, Inr t) \<Rightarrow> (PyFloat q, PyFloat t)
               | _ \<Rightarrow> (PyInt 1, PyInt 0)))"
proof -
  from read_csv_ok [OF assms] obtain st where st: "read_csv pyfloat lower rows = Inr st"
    by blast
  from read_csv_items [OF st] have
    "map (\<lambda>it. (ii_invoice_id it, ii_product_name it, ii_quantity it, ii_total it))
       (invoice_items st) =
     map (\<lambda>r. (invoice_id_of r, name_of (ascii ''Item Name'') r,
                fst (quantity_total pyfloat r), snd (quantity_total pyfloat r)))
       (filter collected rows)"
    by (simp add: item_of_def o_def)
  with st show ?thesis using quantity_total_cases [of pyfloat] by blast
qed

theorem numeric_fallback_witness:
  "\<exists>st. read_csv float_decimal (\<lambda>s. s) rows_two_customers = Inr st \<and>
      map (\<lambda>it. (ii_quantity it, ii_total it)) (invoice_items st) =
        [(PyFloat 2, PyFloat 21), (PyInt 1, PyInt 0), (PyInt 1, PyInt 0)]"
proof -
  have b: "\<forall>n\<in>set (nonblank_names (ascii ''Item Name'') rows_two_customers).
             list_all scalar_value n"
    by (simp only: rows_two_customers_names) (simp add: ascii_simps scalar_value_def)
  from numeric_fallback [OF rows_two_customers_names(4) b, of float_decimal "\<lambda>s. s"]
  obtain st where st: "read_csv float_decimal (\<lambda>s. s) rows_two_customers = Inr st"
    and items: "map (\<lambda>it. (ii_invoice_id it, ii_product_name it, ii_quantity it, ii_total it))
        (invoice_items st) =
      map (\<lambda>r. (invoice_id_of r, name_of (ascii ''Item Name'') r,
                 fst (quantity_total float_decimal r), snd (quantity_total float_decimal r)))
        (filter collected rows_two_customers)" by blast
  have "map (\<lambda>it. (ii_quantity it, ii_total it)) (invoice_items st) =
        map (\<lambda>(a, b, c, d). (c, d))
          (map (\<lambda>it. (ii_invoice_id it, ii_product_name it, ii_quantity it, ii_total it))
            (invoice_items st))"
    by (simp add: o_def)
  also have "\<dots> = map (\<lambda>r. quantity_total float_decimal r) (filter collected rows_two_customers)"
    unfolding items by (simp add: o_def)
  also have "\<dots> = [(PyFloat 2, PyFloat 21), (PyInt 1, PyInt 0), (PyInt 1, PyInt 0)]"
    by (simp add: rows_two_customers_def collected_def invoice_id_of_def name_of_def
          quantity_total_def float_currency_def replace_def csv_row_simps get_def ascii_simps
          strip_def isspace_def float_decimal_def digits_value_def)
  finally show ?thesis using st by (intro exI [of _ st]) simp
qed

text \<open>
  A zero default for the failing field alone is not what the code does: on a
  collected row whose quantity is \<open>abc\<close> and whose total is \<open>5\<close>, the recorded
  quantity is \<open>1\<close>, not zero, and the recorded total is \<open>0\<close> although the total
  parses to \<open>5\<close>.
\<close>

theorem numeric_fallback_counterexample:
  "collected row_bad_quantity \<and>
   float_of float_decimal (get row_bad_quantity (ascii ''Quantity'') (Str (ascii ''1''))) =
     Inl ValueError \<and>
   float_currency float_decimal (get row_bad_quantity (ascii ''Total'') (Str (ascii ''0''))) =
     Inr 5 \<and>
   quantity_total float_decimal row_bad_quantity = (PyInt 1, PyInt 0)"
  by (simp add: row_bad_quantity_def collected_def invoice_id_of_def name_of_def
        quantity_total_def float_currency_def replace_def csv_row_simps get_def ascii_simps
        strip_def isspace_def float_decimal_def digits_value_def)

text \<open>
  C8. The rows the store synthesizer emits are those of the distinct non-blank
  customer names in strictly increasing lexicographic order; the product insert loop
  visits the products in the order of the first occurrences of their names in the
  file.
\<close>

theorem emission_order:
  "(create_stores rows = Inr (k, vals) \<longrightarrow>
      (\<exists>names. names = sorted_list_of_set (set (nonblank_names (ascii ''Customer Name'') rows)) \<and>
         map Inr vals = map store_value names \<and>
         set names = set (nonblank_names (ascii ''Customer Name'') rows) \<and>
         sorted_wrt (\<lambda>a b. (a, b) \<in> lexord {(x, y). x < y}) names)) \<and>
   (read_csv pyfloat lower rows = Inr st \<longrightarrow>
      map (\<lambda>(pid, name, rest). name) (product_inserts st) = map fst (products st) \<and>
      (\<forall>e\<in>set (products st). p_name (snd e) = fst e) \<and>
      map fst (products st) = firsts (nonblank_names (ascii ''Item Name'') rows) \<and>
      distinct (map fst (products st)) \<and>
      set (map fst (products st)) = set (nonblank_names (ascii ''Item Name'') rows) \<and>
      (\<forall>i<length (products st).
         \<exists>m<length (nonblank_names (ascii ''Item Name'') rows).
           nonblank_names (ascii ''Item Name'') rows ! m = map fst (products st) ! i \<and>
           (\<forall>m'<m. nonblank_names (ascii ''Item Name'') rows ! m' \<noteq> map fst (products st) ! i) \<and>
           (\<forall>j<i. \<exists>m'<m. nonblank_names (ascii ''Item Name'') rows ! m' =
                              map fst (products st) ! j)))"
proof (intro conjI impI)
  let ?S = "set (nonblank_names (ascii ''Customer Name'') rows)"
  assume "create_stores rows = Inr (k, vals)"
  from create_stores_Inr [OF this]
  have v: "map Inr vals = map store_value (sorted_list_of_set ?S)" by simp
  have "sorted_wrt (<) (sorted_list_of_set ?S)" by (rule strict_sorted_list_of_set)
  moreover have "(<) = (\<lambda>a b :: str. (a, b) \<in> lexord {(x, y). x < y})"
    by (intro ext) (simp add: list_less_def)
  ultimately
  have "sorted_wrt (\<lambda>a b. (a, b) \<in> lexord {(x, y). x < y}) (sorted_list_of_set ?S)"
    by simp
  with v show "\<exists>names. names = sorted_list_of_set ?S \<and> map Inr vals = map store_value names \<and>
      set names = ?S \<and> sorted_wrt (\<lambda>a b. (a, b) \<in> lexord {(x, y). x < y}) names"
    by simp
next
  let ?names = "nonblank_names (ascii ''Item Name'') rows"
  assume st: "read_csv pyfloat lower rows = Inr st"
  from read_csv_keys [OF st] have keys: "map fst (products st) = firsts ?names" by simp
  show "map (\<lambda>(pid, name, rest). name) (product_inserts st) = map fst (products st)"
  proof -
    have "p_name p = n" if "(n, p) \<in> set (products st)" for n p
      using read_csv_first_row [OF st that] new_product_fields by blast
    then show ?thesis
      by (auto simp: product_inserts_def)
  qed
  show "\<forall>e\<in>set (products st). p_name (snd e) = fst e"
  proof
    fix e assume "e \<in> set (products st)"
    then have "(fst e, snd e) \<in> set (products st)" by simp
    from read_csv_first_row [OF st this] show "p_name (snd e) = fst e"
      using new_product_fields by blast
  qed
  show "map fst (products st) = firsts ?names" by (rule keys)
  show "distinct (map fst (products st))" by (simp add: keys distinct_firsts)
  show "set (map fst (products st)) = set ?names" by (simp add: keys set_firsts)
  show "\<forall>i<length (products st). \<exists>m<length ?names.
      ?names ! m = map fst (products st) ! i \<and>
      (\<forall>m'<m. ?names ! m' \<noteq> map fst (products st) ! i) \<and>
      (\<forall>j<i. \<exists>m'<m. ?names ! m' = map fst (products st) ! j)"
  proof -
    have "length (products st) = length (firsts ?names)"
      using keys by (metis length_map)
    with firsts_order [of ?names] show ?thesis unfolding keys by simp
  qed
qed

theorem emission_order_witness:
  "\<exists>vals st. create_stores rows_two_customers = Inr (2, vals) \<and>
      map Inr vals = map store_value [ascii ''Acme'', ascii ''Zed Foods''] \<and>
      read_csv float_decimal (\<lambda>s. s) rows_two_customers = Inr st \<and>
      map fst (products st) = [ascii ''Basmati Rice'', ascii ''Toor Dal'']"
proof -
  have a: "\<forall>n\<in>set (nonblank_names (ascii ''Customer Name'') rows_two_customers).
             list_all scalar_value n"
    and b: "\<forall>n\<in>set (nonblank_names (ascii ''Item Name'') rows_two_customers).
             list_all scalar_value n"
    by (simp_all only: rows_two_customers_names) (simp_all add: ascii_simps scalar_value_def)
  have c: "card (set (nonblank_names (ascii ''Customer Name'') rows_two_customers)) = 2"
    by (simp only: rows_two_customers_names) (simp add: ascii_simps card_insert_if)
  from create_stores_ok [OF rows_two_customers_names(3) a] c obtain vals where
    vals: "create_stores rows_two_customers = Inr (2, vals)" by auto
  from read_csv_ok [OF rows_two_customers_names(4) b] obtain st where
    st: "read_csv float_decimal (\<lambda>s. s) rows_two_customers = Inr st" by blast
  have s: "sorted_list_of_set (set (nonblank_names (ascii ''Customer Name'') rows_two_customers)) =
      [ascii ''Acme'', ascii ''Zed Foods'']"
    by (simp only: rows_two_customers_names sorted_list_of_set_sort_remdups)
       (simp add: ascii_simps)
  have f: "firsts (nonblank_names (ascii ''Item Name'') rows_two_customers) =
      [ascii ''Basmati Rice'', ascii ''Toor Dal'']"
    by (simp only: rows_two_customers_names) (simp add: firsts_def ascii_simps)
  from emission_order [of rows_two_customers 2 vals float_decimal "\<lambda>s. s" st] vals st
  have "map Inr vals = map store_value
          (sorted_list_of_set (set (nonblank_names (ascii ''Customer Name'') rows_two_customers)))"
    and "map fst (products st) = firsts (nonblank_names (ascii ''Item Name'') rows_two_customers)"
    by blast+
  then have "map Inr vals = map store_value [ascii ''Acme'', ascii ''Zed Foods'']"
    and "map fst (products st) = [ascii ''Basmati Rice'', ascii ''Toor Dal'']"
    by (simp_all only: s f)
  with vals st show ?thesis by (intro exI [of _ vals] exI [of _ st] conjI)
qed

subsection \<open>The recommendation query\<close>

lemma length_select_where_limit:
  "length (select_where_limit rnd k limit joined) \<le> min limit (length joined)"
proof (induction joined arbitrary: k limit)
  case Nil
  show ?case by simp
next
  case (Cons e joined)
  obtain ord p where e: "e = (ord, p)" by (cases e)
  show ?case
  proof (cases "limit = 0")
    case True
    then show ?thesis by (simp add: e)
  next
    case False
    then obtain l where l: "limit = Suc l" by (cases limit) auto
    show ?thesis
      using Cons.IH [of "k + 2" l] Cons.IH [of "k + 1" limit] by (auto simp: e l)
  qed
qed

lemma set_select_where_limit:
  "r \<in> set (select_where_limit rnd k limit joined) \<Longrightarrow>
     \<exists>ord p j. (ord, p) \<in> set joined \<and> r = select_list ord p (rnd j)"
proof (induction joined arbitrary: k limit)
  case Nil
  then show ?case by simp
next
  case (Cons e joined)
  obtain ord p where e: "e = (ord, p)" by (cases e)
  from Cons.prems consider "r = select_list ord p (rnd (k + 1))"
    | "r \<in> set (select_where_limit rnd (k + 2) (limit - 1) joined)"
    | "r \<in> set (select_where_limit rnd (k + 1) limit joined)"
    by (auto simp: e split: if_splits)
  then show ?case
  proof cases
    case 1
    then show ?thesis unfolding e by (intro exI [of _ ord] exI [of _ p] exI [of _ "k + 1"]) simp
  next
    case 2
    from Cons.IH [OF this] show ?thesis by auto
  next
    case 3
    from Cons.IH [OF this] show ?thesis by auto
  qed
qed

lemma insert_do_nothing_sub:
  "set (insert_do_nothing conflict table rs) \<subseteq> set rs \<and>
   length (insert_do_nothing conflict table rs) \<le> length rs"
proof (induction rs arbitrary: table)
  case Nil
  show ?case by simp
next
  case (Cons r rs)
  show ?case
    using Cons.IH [of table] Cons.IH [of "table @ [r]"] by auto
qed

text \<open>
  C9. With draws of \<open>RANDOM()\<close> in \<open>[0, 1)\<close>, the statement inserts at most
  \<open>min(500, orders \<times> products)\<close> rows; every inserted row has a confidence score in
  \<open>[0.5, 1.0)\<close>, and its expected revenue is the price of its product times 1.2.
\<close>

theorem recommendation_bounds:
  fixes rnd :: "nat \<Rightarrow> 'a::linordered_field"
  assumes "\<forall>k. 0 \<le> rnd k \<and> rnd k < 1"
  shows "length (generate_recommendations rnd conflict table orders prods) \<le>
           min 500 (length orders * length prods) \<and>
         (\<forall>r\<in>set (generate_recommendations rnd conflict table orders prods).
            0.5 \<le> r_confidence_score r \<and> r_confidence_score r < 1 \<and>
            (\<exists>ord\<in>set orders. \<exists>p\<in>set prods.
               r_order_id r = o_id ord \<and> r_product_id r = pr_id p \<and>
               r_expected_revenue r = pr_price p * 1.2))"
proof
  let ?sel = "select_where_limit rnd 0 500 (List.product orders prods)"
  have "length (generate_recommendations rnd conflict table orders prods) \<le> length ?sel"
    using insert_do_nothing_sub [of conflict table ?sel]
    by (simp add: generate_recommendations_def)
  also have "\<dots> \<le> min 500 (length (List.product orders prods))"
    by (rule length_select_where_limit)
  finally show "length (generate_recommendations rnd conflict table orders prods) \<le>
      min 500 (length orders * length prods)" by (simp add: length_product)
next
  let ?sel = "select_where_limit rnd 0 500 (List.product orders prods)"
  show "\<forall>r\<in>set (generate_recommendations rnd conflict table orders prods).
      0.5 \<le> r_confidence_score r \<and> r_confidence_score r < 1 \<and>
      (\<exists>ord\<in>set orders. \<exists>p\<in>set prods.
         r_order_id r = o_id ord \<and> r_product_id r = pr_id p \<and>
         r_expected_revenue r = pr_price p * 1.2)"
  proof
    fix r assume "r \<in> set (generate_recommendations rnd conflict table orders prods)"
    then have "r \<in> set ?sel"
      using insert_do_nothing_sub [of conflict table ?sel]
      by (auto simp: generate_recommendations_def)
    from set_select_where_limit [OF this] obtain ord p j where
      mem: "(ord, p) \<in> set (List.product orders prods)" and r: "r = select_list ord p (rnd j)"
      by blast
    from assms have d: "0 \<le> rnd j" "rnd j < 1" by simp_all
    have "r_confidence_score r = rnd j * 0.5 + 0.5" by (simp add: r select_list_def)
    with d have "0.5 \<le> r_confidence_score r" "r_confidence_score r < 1" by simp_all
    moreover from mem have "ord \<in> set orders" "p \<in> set prods" by simp_all
    moreover have "r_order_id r = o_id ord" "r_product_id r = pr_id p"
      "r_expected_revenue r = pr_price p * 1.2" by (simp_all add: r select_list_def)
    ultimately show "0.5 \<le> r_confidence_score r \<and> r_confidence_score r < 1 \<and>
      (\<exists>ord\<in>set orders. \<exists>p\<in>set prods.
         r_order_id r = o_id ord \<and> r_product_id r = pr_id p \<and>
         r_expected_revenue r = pr_price p * 1.2)" by blast
  qed
qed

theorem recommendation_bounds_witness:
  "length (generate_recommendations (\<lambda>k. if even k then 0 else (0.5::rat))
      (\<lambda>a b. r_order_id a = r_order_id b \<and> r_product_id a = r_product_id b) []
      [\<lparr>o_id = 1, o_store_id = 10\<rparr>, \<lparr>o_id = 2, o_store_id = 10\<rparr>]
      [\<lparr>pr_id = 7, pr_price = 60, pr_category = ascii ''Food''\<rparr>]) \<le> 2 \<and>
   map (\<lambda>r. (r_order_id r, r_confidence_score r, r_expected_revenue r))
     (generate_recommendations (\<lambda>k. if even k then 0 else (0.5::rat))
        (\<lambda>a b. r_order_id a = r_order_id b \<and> r_product_id a = r_product_id b) []
        [\<lparr>o_id = 1, o_store_id = 10\<rparr>, \<lparr>o_id = 2, o_store_id = 10\<rparr>]
        [\<lparr>pr_id = 7, pr_price = 60, pr_category = ascii ''Food''\<rparr>]) =
     [(1, 0.75, 72), (2, 0.75, 72)]"
proof
  have "\<forall>k. 0 \<le> (if even k then 0 else (0.5::rat)) \<and> (if even k then 0 else (0.5::rat)) < 1"
    by simp
  from recommendation_bounds [OF this,
      of "\<lambda>a b. r_order_id a = r_order_id b \<and> r_product_id a = r_product_id b" "[]"
        "[\<lparr>o_id = 1, o_store_id = 10\<rparr>, \<lparr>o_id = 2, o_store_id = 10\<rparr>]"
        "[\<lparr>pr_id = 7, pr_price = 60, pr_category = ascii ''Food''\<rparr>]"]
  have "length (generate_recommendations (\<lambda>k. if even k then 0 else (0.5::rat))
      (\<lambda>a b. r_order_id a = r_order_id b \<and> r_product_id a = r_product_id b) []
      [\<lparr>o_id = 1, o_store_id = 10\<rparr>, \<lparr>o_id = 2, o_store_id = 10\<rparr>]
      [\<lparr>pr_id = 7, pr_price = 60, pr_category = ascii ''Food''\<rparr>]) \<le>
    min 500 (length [\<lparr>o_id = 1, o_store_id = 10\<rparr>, \<lparr>o_id = 2, o_store_id = 10\<rparr>] *
      length [\<lparr>pr_id = 7, pr_price = 60::rat, pr_category = ascii ''Food''\<rparr>])"
    by (rule conjunct1)
  then show "length (generate_recommendations (\<lambda>k. if even k then 0 else (0.5::rat))
      (\<lambda>a b. r_order_id a = r_order_id b \<and> r_product_id a = r_product_id b) []
      [\<lparr>o_id = 1, o_store_id = 10\<rparr>, \<lparr>o_id = 2, o_store_id = 10\<rparr>]
      [\<lparr>pr_id = 7, pr_price = 60, pr_category = ascii ''Food''\<rparr>]) \<le> 2"
    by simp
next
  show "map (\<lambda>r. (r_order_id r, r_confidence_score r, r_expected_revenue r))
     (generate_recommendations (\<lambda>k. if even k then 0 else (0.5::rat))
        (\<lambda>a b. r_order_id a = r_order_id b \<and> r_product_id a = r_product_id b) []
        [\<lparr>o_id = 1, o_store_id = 10\<rparr>, \<lparr>o_id = 2, o_store_id = 10\<rparr>]
        [\<lparr>pr_id = 7, pr_price = 60, pr_category = ascii ''Food''\<rparr>]) =
     [(1, 0.75, 72), (2, 0.75, 72)]"
    by (simp add: generate_recommendations_def select_list_def)
qed

end
